theory Spec2Isabelle
  imports Complex_Main "HOL-Library.Signed_Division"
begin

section \<open>Passenger-presence estimator of the campaigns view\<close>

text \<open>
  The development embeds the passenger-distribution helpers of the campaigns page:
  \<^verbatim>\<open>normalCDF\<close>, \<^verbatim>\<open>lognormCDF\<close>, \<^verbatim>\<open>arrivalsExitLogNormal\<close>,
  \<^verbatim>\<open>passengersLogNormal\<close>, \<^verbatim>\<open>calculatePassengerDistribution\<close> and
  \<^verbatim>\<open>calculatePassengerGridData\<close>.

  Numbers. A TypeScript \<^verbatim>\<open>number\<close> is an IEEE-754 double. Epoch seconds, which the
  code obtains from \<^verbatim>\<open>dayjs(...).unix()\<close> and only adds, subtracts, snaps and
  compares, are whole numbers far below \<open>2^53\<close> and are modelled as \<^typ>\<open>int\<close>.
  Passenger quantities are modelled as \<^typ>\<open>real\<close>, with \<^verbatim>\<open>Math.exp\<close>,
  \<^verbatim>\<open>Math.log\<close>, \<^verbatim>\<open>Math.sqrt\<close> as \<^const>\<open>exp\<close>, \<^const>\<open>ln\<close>, \<^const>\<open>sqrt\<close>:
  this is exact arithmetic, so rounding error, underflow and \<^verbatim>\<open>NaN\<close> produced by
  arithmetic are outside the model. The one \<^verbatim>\<open>NaN\<close> that input can cause, an anchor
  string that \<^verbatim>\<open>dayjs\<close> cannot parse, is modelled explicitly (\<open>None\<close>).
\<close>

subsection \<open>Records of the source\<close>

text \<open>
  \<^verbatim>\<open>interface CampaignFlight\<close>. The declared type of the three strings read by the
  estimator is \<^verbatim>\<open>string\<close>, but the code guards them with \<^verbatim>\<open>||\<close>, \<^verbatim>\<open>!\<close> and
  \<^verbatim>\<open>?.\<close>; \<open>None\<close> stands for \<^verbatim>\<open>null\<close>/\<^verbatim>\<open>undefined\<close>.
\<close>

record CampaignFlight =
  flight_number :: string
  uploaded_at :: string
  flight_type :: "string option"
  airport_iata :: string
  target_airport_iata :: string
  scheduled_time_utc :: "string option"
  actual_time_utc :: "string option"
  flight_status :: string
  avg_pax_est :: "real option"
  country_code :: "string option"
  country_code_target :: "string option"

text \<open>
  \<^verbatim>\<open>interface PassengerTimePoint\<close>; its \<^verbatim>\<open>flight_type\<close> field is named
  \<open>point_flight_type\<close> here, since a record field is a constant of the theory.
\<close>

record PassengerTimePoint =
  flight_id :: string
  point_flight_type :: "string option"
  time :: int
  time_formatted :: string
  passenger_count :: int

text \<open>
  \<^verbatim>\<open>interface PassengerGridRow\<close> is an object with the keys \<^verbatim>\<open>time\<close>,
  \<^verbatim>\<open>time_formatted\<close>, \<^verbatim>\<open>total\<close> and one dynamic key per flight: a map from keys
  to numbers or strings. Every number stored in a row is whole.
\<close>

datatype cell = Num int | Str string

type_synonym PassengerGridRow = "string \<rightharpoonup> cell"

subsection \<open>JavaScript primitives\<close>

text \<open>\<^verbatim>\<open>Math.round\<close>: nearest integer, halves towards \<open>+\<infinity>\<close>.\<close>

definition Math_round :: "real \<Rightarrow> int" where
  "Math_round x = \<lfloor>x + 1 / 2\<rfloor>"

text \<open>Falsy strings are \<^verbatim>\<open>null\<close>, \<^verbatim>\<open>undefined\<close> and the empty string.\<close>

definition falsy :: "string option \<Rightarrow> bool" where
  "falsy v = (case v of None \<Rightarrow> True | Some s \<Rightarrow> s = [])"

text \<open>\<^verbatim>\<open>flight.actual_time_utc || flight.scheduled_time_utc\<close>\<close>

definition anchorString :: "CampaignFlight \<Rightarrow> string option" where
  "anchorString flight =
     (if falsy (actual_time_utc flight) then scheduled_time_utc flight
      else actual_time_utc flight)"

text \<open>\<^verbatim>\<open>flight.avg_pax_est || 100\<close>: \<^verbatim>\<open>null\<close> and \<open>0\<close> are falsy.\<close>

definition paxOrDefault :: "CampaignFlight \<Rightarrow> real" where
  "paxOrDefault flight =
     (case avg_pax_est flight of None \<Rightarrow> 100 | Some v \<Rightarrow> if v = 0 then 100 else v)"

text \<open>
  \<^verbatim>\<open>String.prototype.toLowerCase\<close> on the letters \<open>A\<close> to \<open>Z\<close>; other characters
  are kept. (A string with a character outside ASCII never lowercases to one of the four
  recognised type words, so the comparisons below are not affected.)
\<close>

definition toLowerCase_char :: "char \<Rightarrow> char" where
  "toLowerCase_char c =
     (let n = (of_char c :: nat) in if 65 \<le> n \<and> n \<le> 90 then char_of (n + 32) else c)"

definition toLowerCase :: "string \<Rightarrow> string" where
  "toLowerCase s = map toLowerCase_char s"

text \<open>\<^verbatim>\<open>flight.flight_type?.toLowerCase()\<close>\<close>

definition fTypeOf :: "CampaignFlight \<Rightarrow> string option" where
  "fTypeOf flight = map_option toLowerCase (flight_type flight)"

text \<open>Decimal rendering of an array index inside a template literal.\<close>

fun string_of_nat :: "nat \<Rightarrow> string" where
  "string_of_nat n =
     (if n < 10 then [char_of (48 + n)]
      else string_of_nat (n div 10) @ [char_of (48 + n mod 10)])"

declare string_of_nat.simps [simp del]

text \<open>The template literal \<^verbatim>\<open>`flight_${index}`\<close>.\<close>

definition columnKeyOf :: "nat \<Rightarrow> string" where
  "columnKeyOf i = ''flight_'' @ string_of_nat i"

text \<open>
  \<^verbatim>\<open>dayjs.unix(t).utc().format('HH:mm')\<close>: the UTC time of day of an epoch second,
  two digits each.
\<close>

definition pad2 :: "nat \<Rightarrow> string" where
  "pad2 n = (if n < 10 then CHR ''0'' # string_of_nat n else string_of_nat n)"

definition format_HHmm :: "int \<Rightarrow> string" where
  "format_HHmm t = pad2 (nat ((t div 3600) mod 24)) @ CHR '':'' # pad2 (nat ((t div 60) mod 60))"

text \<open>
  The times visited by \<^verbatim>\<open>for (let t = t0; t <= tMax; t += 300)\<close>, in order.
\<close>

function fiveMinuteSteps :: "int \<Rightarrow> int \<Rightarrow> int list" where
  "fiveMinuteSteps t tMax = (if t \<le> tMax then t # fiveMinuteSteps (t + 300) tMax else [])"
  by pat_completeness auto
termination
  by (relation "measure (\<lambda>(t, tMax). nat (tMax + 1 - t))") auto

declare fiveMinuteSteps.simps [simp del]

subsection \<open>The distribution functions\<close>

definition normalCDF :: "real \<Rightarrow> real" where
  "normalCDF x =
     (let a1 = 0.254829592;
          a2 = - 0.284496736;
          a3 = 1.421413741;
          a4 = - 1.453152027;
          a5 = 1.061405429;
          p = 0.3275911;
          sign = (if x < 0 then - 1 else 1);
          absX = \<bar>x\<bar> / sqrt 2;
          t = 1.0 / (1.0 + p * absX);
          y = 1.0 - (((((a5 * t + a4) * t) + a3) * t + a2) * t + a1) * t * exp (- absX * absX)
      in 0.5 * (1.0 + sign * y))"

definition lognormCDF :: "real \<Rightarrow> real \<Rightarrow> real \<Rightarrow> real" where
  "lognormCDF x sigma scale =
     (if x \<le> 0 then 0 else normalCDF ((ln x - ln scale) / sigma))"

definition arrivalsExitLogNormal :: "real \<Rightarrow> real \<Rightarrow> real \<Rightarrow> real \<Rightarrow> real \<Rightarrow> real \<Rightarrow> real" where
  "arrivalsExitLogNormal t N tLand tEnd sigma medianFraction =
     (if t \<le> tLand then N
      else if t \<ge> tEnd then 0
      else
        (let elapsed = t - tLand;
             totalWindow = tEnd - tLand;
             scaled = elapsed / totalWindow;
             scale = medianFraction;
             cumProb = lognormCDF scaled sigma scale;
             maxProb = lognormCDF 1.0 sigma scale;
             cumulativeExits = N * (cumProb / maxProb)
         in N - cumulativeExits))"

definition passengersLogNormal :: "real \<Rightarrow> real \<Rightarrow> real \<Rightarrow> real \<Rightarrow> real \<Rightarrow> real \<Rightarrow> real" where
  "passengersLogNormal t N tOpen tDep sigma medianFraction =
     (if t \<le> tOpen then 0
      else if t \<ge> tDep then N
      else
        (let elapsed = t - tOpen;
             totalWindow = tDep - tOpen;
             scaled = elapsed / totalWindow;
             scale = medianFraction;
             cumProb = lognormCDF scaled sigma scale;
             maxProb = lognormCDF 1.0 sigma scale
         in N * (cumProb / maxProb)))"

subsection \<open>Per-flight series\<close>

abbreviation SECONDS_IN_HOUR :: int where "SECONDS_IN_HOUR \<equiv> 3600"
abbreviation THREE_HOURS_IN_SECONDS :: int where "THREE_HOURS_IN_SECONDS \<equiv> 3 * SECONDS_IN_HOUR"
abbreviation NINETY_MINS_IN_SECONDS :: int where "NINETY_MINS_IN_SECONDS \<equiv> 90 * 60"
abbreviation FIVE_MINUTES_IN_SECONDS :: int where "FIVE_MINUTES_IN_SECONDS \<equiv> 300"

text \<open>The object pushed by the arrival loop at time \<open>t\<close>.\<close>

definition arrivalPoint :: "CampaignFlight \<Rightarrow> real \<Rightarrow> int \<Rightarrow> int \<Rightarrow> int \<Rightarrow> PassengerTimePoint" where
  "arrivalPoint flight N tLand tEnd t =
     (let currentRemaining = arrivalsExitLogNormal (of_int t) N (of_int tLand) (of_int tEnd) 0.3 0.3
      in \<lparr>flight_id = flight_number flight,
          point_flight_type = flight_type flight,
          time = t,
          time_formatted = format_HHmm t,
          passenger_count = Math_round currentRemaining\<rparr>)"

text \<open>The object pushed by the departure loop at time \<open>t\<close>.\<close>

definition departurePoint :: "CampaignFlight \<Rightarrow> real \<Rightarrow> int \<Rightarrow> int \<Rightarrow> int \<Rightarrow> PassengerTimePoint" where
  "departurePoint flight N tOpenSnapped tDep t =
     (let passengerCount = passengersLogNormal (of_int t) N (of_int tOpenSnapped) (of_int tDep) 0.5 0.7
      in \<lparr>flight_id = flight_number flight,
          point_flight_type = flight_type flight,
          time = t,
          time_formatted = format_HHmm t,
          passenger_count = Math_round passengerCount\<rparr>)"

text \<open>The object pushed after the departure loop.\<close>

definition finalDeparturePoint :: "CampaignFlight \<Rightarrow> real \<Rightarrow> int \<Rightarrow> PassengerTimePoint" where
  "finalDeparturePoint flight N tDep =
     \<lparr>flight_id = flight_number flight,
      point_flight_type = flight_type flight,
      time = tDep,
      time_formatted = format_HHmm tDep,
      passenger_count = Math_round N\<rparr>"

text \<open>
  \<^verbatim>\<open>calculatePassengerDistribution\<close>. The parameter \<open>unix\<close> is
  \<^verbatim>\<open>s => dayjs(s).unix()\<close> of the date library, \<open>None\<close> when the string is not a
  date (the library then returns \<^verbatim>\<open>NaN\<close>). With \<^verbatim>\<open>NaN\<close> as \<^verbatim>\<open>tActual\<close> the
  guard of either loop and the test \<^verbatim>\<open>lastTime < tDep\<close> are false, so nothing is
  pushed.
\<close>

definition calculatePassengerDistribution ::
    "(string \<Rightarrow> int option) \<Rightarrow> CampaignFlight \<Rightarrow> PassengerTimePoint list" where
  "calculatePassengerDistribution unix flight =
     (case anchorString flight of
        None \<Rightarrow> []
      | Some timeStr \<Rightarrow>
          if timeStr = [] then []
          else
            (case unix timeStr of
               None \<Rightarrow> []
             | Some tActual \<Rightarrow>
                 (let N = paxOrDefault flight;
                      fType = fTypeOf flight
                  in if fType = Some ''arrival'' \<or> fType = Some ''arr'' then
                       (let tLand = tActual;
                            tStartSnapped =
                              \<lceil>real_of_int tLand / real_of_int FIVE_MINUTES_IN_SECONDS\<rceil>
                                * FIVE_MINUTES_IN_SECONDS;
                            tEnd = tLand + NINETY_MINS_IN_SECONDS
                        in map (arrivalPoint flight N tLand tEnd) (fiveMinuteSteps tStartSnapped tEnd))
                     else if fType = Some ''departure'' \<or> fType = Some ''dep'' then
                       (let tDep = tActual;
                            rawStart = tDep - THREE_HOURS_IN_SECONDS;
                            tOpenSnapped = rawStart - (rawStart smod SECONDS_IN_HOUR);
                            results =
                              map (departurePoint flight N tOpenSnapped tDep)
                                (fiveMinuteSteps tOpenSnapped tDep);
                            lastTime = (if length results > 0 then time (last results) else 0)
                        in if lastTime < tDep then results @ [finalDeparturePoint flight N tDep]
                           else results)
                     else [])))"

subsection \<open>Multi-flight grid\<close>

abbreviation FIVE_MINUTES :: int where "FIVE_MINUTES \<equiv> 300"
abbreviation TWO_HOURS :: int where "TWO_HOURS \<equiv> 2 * 3600"
abbreviation THREE_HOURS :: int where "THREE_HOURS \<equiv> 3 * 3600"
abbreviation NINETY_MINS :: int where "NINETY_MINS \<equiv> 90 * 60"

text \<open>
  The objects of \<^verbatim>\<open>flightData\<close>; the field \<^verbatim>\<open>N\<close> is named \<open>fd_N\<close>.
\<close>

record FlightData =
  flight :: CampaignFlight
  index :: nat
  columnKey :: string
  tActual :: int
  isArrival :: bool
  fd_N :: real
  windowStart :: int
  windowEnd :: int

text \<open>
  The callback of \<^verbatim>\<open>flights.map\<close>. A flight without an anchor string gets
  \<^verbatim>\<open>tActual = 0\<close>; every flight that is not an arrival takes the \<^verbatim>\<open>else\<close> branch.
  \<open>None\<close> stands for an entry whose \<^verbatim>\<open>tActual\<close>, and with it both window bounds,
  is \<^verbatim>\<open>NaN\<close>.
\<close>

definition flightDatum :: "(string \<Rightarrow> int option) \<Rightarrow> CampaignFlight \<Rightarrow> nat \<Rightarrow> FlightData option" where
  "flightDatum unix f i =
     (let timeStr = anchorString f;
          tActualOpt = (case timeStr of None \<Rightarrow> Some 0
                        | Some s \<Rightarrow> if s = [] then Some 0 else unix s)
      in case tActualOpt of
           None \<Rightarrow> None
         | Some tAct \<Rightarrow>
             (let fType = fTypeOf f;
                  N = paxOrDefault f;
                  isArr = (fType = Some ''arrival'' \<or> fType = Some ''arr'');
                  rawStart = tAct - THREE_HOURS
              in Some \<lparr>flight = f,
                       index = i,
                       columnKey = columnKeyOf i,
                       tActual = tAct,
                       isArrival = isArr,
                       fd_N = N,
                       windowStart = (if isArr then tAct else rawStart - (rawStart smod 3600)),
                       windowEnd = (if isArr then tAct + NINETY_MINS else tAct)\<rparr>))"

text \<open>The rounded value that the inner loop computes for one flight at time \<open>t\<close>.\<close>

definition roundedPassengers :: "FlightData \<Rightarrow> int \<Rightarrow> int" where
  "roundedPassengers fd t =
     Math_round
       (if isArrival fd then
          (let tLand = tActual fd
           in if t < tLand then 0
              else (let tEnd = tLand + NINETY_MINS
                    in arrivalsExitLogNormal (of_int t) (fd_N fd) (of_int tLand) (of_int tEnd) 0.3 0.3))
        else
          (let tDep = tActual fd
           in if t > tDep then 0
              else (let rawStart = tDep - THREE_HOURS;
                        tOpen = rawStart - (rawStart smod 3600)
                    in passengersLogNormal (of_int t) (fd_N fd) (of_int tOpen) (of_int tDep) 0.5 0.7)))"

text \<open>One pass of the inner loop: store the flight's column, add to the running total.\<close>

definition addFlightColumn :: "int \<Rightarrow> PassengerGridRow \<times> int \<Rightarrow> FlightData \<Rightarrow> PassengerGridRow \<times> int" where
  "addFlightColumn t acc fd =
     (case acc of (row, totalPassengers) \<Rightarrow>
        (let r = roundedPassengers fd t
         in (row(columnKey fd \<mapsto> Num r), totalPassengers + r)))"

text \<open>The body of the outer loop: the row pushed for time \<open>t\<close>.\<close>

definition gridRow :: "FlightData list \<Rightarrow> int \<Rightarrow> PassengerGridRow" where
  "gridRow flightData t =
     (let row0 = [''time'' \<mapsto> Num t, ''time_formatted'' \<mapsto> Str (format_HHmm t)]
      in case foldl (addFlightColumn t) (row0, 0) flightData of
           (row, totalPassengers) \<Rightarrow> row(''total'' \<mapsto> Num totalPassengers))"

text \<open>
  \<^verbatim>\<open>calculatePassengerGridData\<close>. \<^verbatim>\<open>Math.min\<close> and \<^verbatim>\<open>Math.max\<close> return
  \<^verbatim>\<open>NaN\<close> as soon as one argument is \<^verbatim>\<open>NaN\<close>; the loop guard is then false and
  no row is pushed.
\<close>

definition flightDataOf :: "(string \<Rightarrow> int option) \<Rightarrow> CampaignFlight list \<Rightarrow> FlightData option list" where
  "flightDataOf unix flights = map (\<lambda>(f, i). flightDatum unix f i) (zip flights [0 ..< length flights])"

definition calculatePassengerGridData ::
    "(string \<Rightarrow> int option) \<Rightarrow> CampaignFlight list \<Rightarrow> PassengerGridRow list" where
  "calculatePassengerGridData unix flights =
     (if length flights = 0 then []
      else
        (case those (flightDataOf unix flights) of
           None \<Rightarrow> []
         | Some flightData \<Rightarrow>
             (let minTime = Min (set (map windowStart flightData));
                  maxTime = Max (set (map windowEnd flightData)) + TWO_HOURS;
                  startTime = \<lfloor>real_of_int minTime / real_of_int FIVE_MINUTES\<rfloor> * FIVE_MINUTES
              in map (gridRow flightData) (fiveMinuteSteps startTime maxTime))))"



section \<open>Definitions used by the statements and proofs\<close>

subsection \<open>The grid cell expressed through the two models\<close>

text \<open>
  The specification describes a grid cell as the model of the flight (arrival dissipation
  or departure accumulation) evaluated directly at the grid instant and rounded, with
  exceptions where the cell is \<open>0\<close>. The following definitions follow that wording;
  they are compared with \<^const>\<open>roundedPassengers\<close>, which follows the source.
\<close>

text \<open>
  The window start of a departure, \<^verbatim>\<open>rawStart - (rawStart % 3600)\<close>, as both the series
  generator and the grid compute it (\<^verbatim>\<open>%\<close> is the truncating remainder).
\<close>

definition hourSnapped :: "int \<Rightarrow> int" where
  "hourSnapped rawStart = rawStart - (rawStart smod 3600)"

text \<open>
  The model of a flight evaluated directly at the instant \<open>t\<close>: for an arrival, arrival
  dissipation over the 90 minutes after the anchor; for a departure (\<open>arrival\<close> false),
  departure accumulation over the window ending at the anchor; with the default shape
  parameters of either function.
\<close>

definition modelAt :: "bool \<Rightarrow> int \<Rightarrow> real \<Rightarrow> int \<Rightarrow> real" where
  "modelAt arrival tAnchor N t =
     (if arrival
      then arrivalsExitLogNormal (of_int t) N (of_int tAnchor) (of_int (tAnchor + 90 * 60)) 0.3 0.3
      else passengersLogNormal (of_int t) N (of_int (hourSnapped (tAnchor - 3 * 3600)))
             (of_int tAnchor) 0.5 0.7)"

text \<open>The cell with the single exception: an arrival before landing yields \<open>0\<close>.\<close>

definition cellAsClaimed :: "bool \<Rightarrow> int \<Rightarrow> real \<Rightarrow> int \<Rightarrow> int" where
  "cellAsClaimed arrival tAnchor N t =
     (if arrival \<and> t < tAnchor then 0 else Math_round (modelAt arrival tAnchor N t))"

text \<open>
  The cell with both exceptions: an arrival before landing and a departure after its
  departure instant yield \<open>0\<close>.
\<close>

definition cellAsAmended :: "bool \<Rightarrow> int \<Rightarrow> real \<Rightarrow> int \<Rightarrow> int" where
  "cellAsAmended arrival tAnchor N t =
     (if arrival \<and> t < tAnchor then 0
      else if \<not> arrival \<and> tAnchor < t then 0
      else Math_round (modelAt arrival tAnchor N t))"

subsection \<open>Flight data that produce the same column\<close>


subsection \<open>The polynomial of the error-function approximation\<close>

text \<open>
  The polynomial \<^verbatim>\<open>(((((a5*t + a4)*t) + a3)*t + a2)*t + a1)*t\<close> of \<^verbatim>\<open>normalCDF\<close>,
  its derivative, and the term subtracted from \<open>1\<close> in \<^verbatim>\<open>y\<close> as a function of
  \<^verbatim>\<open>absX\<close>.
\<close>

definition erfPoly :: "real \<Rightarrow> real" where
  "erfPoly t = (((((1.061405429 * t + - 1.453152027) * t) + 1.421413741) * t + - 0.284496736) * t + 0.254829592) * t"

definition erfPoly' :: "real \<Rightarrow> real" where
  "erfPoly' t = 5.307027145 * t^4 - 5.812608108 * t^3 + 4.264241223 * t^2 - 0.568993472 * t + 0.254829592"

definition erfTail :: "real \<Rightarrow> real" where
  "erfTail u = erfPoly (1.0 / (1.0 + 0.3275911 * u)) * exp (- u * u)"

subsection \<open>Example inputs\<close>

text \<open>
  Concrete inputs for the closed instances below. \<open>exampleUnix\<close> agrees with
  \<^verbatim>\<open>s => dayjs(s).unix()\<close> on three ISO-8601 instants of 1 January 1970 and is
  \<open>None\<close> elsewhere.
\<close>

definition exampleUnix :: "string \<Rightarrow> int option" where
  "exampleUnix s =
     (if s = ''1970-01-01T00:00:00Z'' then Some 0
      else if s = ''1970-01-01T03:00:00Z'' then Some 10800
      else if s = ''1970-01-01T03:02:00Z'' then Some 10920
      else None)"

definition exampleFlight :: "string option \<Rightarrow> string option \<Rightarrow> real option \<Rightarrow> CampaignFlight" where
  "exampleFlight ty scheduled pax =
     \<lparr>flight_number = ''LO281'', uploaded_at = ''2024-01-01'', flight_type = ty,
      airport_iata = ''WAW'', target_airport_iata = ''LHR'', scheduled_time_utc = scheduled,
      actual_time_utc = None, flight_status = ''scheduled'', avg_pax_est = pax,
      country_code = None, country_code_target = None\<rparr>"

definition exampleArrival :: CampaignFlight where
  "exampleArrival = exampleFlight (Some ''Arrival'') (Some ''1970-01-01T00:00:00Z'') (Some 50)"

definition exampleDeparture :: CampaignFlight where
  "exampleDeparture = exampleFlight (Some ''departure'') (Some ''1970-01-01T03:00:00Z'') (Some 60)"

definition exampleLateDeparture :: CampaignFlight where
  "exampleLateDeparture = exampleFlight (Some ''dep'') (Some ''1970-01-01T03:02:00Z'') (Some 150)"

definition exampleCargo :: CampaignFlight where
  "exampleCargo = exampleFlight (Some ''cargo'') (Some ''1970-01-01T03:00:00Z'') None"

definition exampleUnanchored :: CampaignFlight where
  "exampleUnanchored = (exampleFlight (Some ''departure'') (Some []) None)\<lparr>actual_time_utc := Some []\<rparr>"

definition exampleHalfPassenger :: CampaignFlight where
  "exampleHalfPassenger = exampleFlight (Some ''arrival'') (Some ''1970-01-01T00:00:00Z'') (Some (1 / 2))"


section \<open>Auxiliary lemmas\<close>

subsection \<open>The normal and log-normal CDF in exact arithmetic\<close>

text \<open>
  The polynomial of the approximation has a positive derivative everywhere, so the
  approximated CDF is monotone and positive over the reals.
\<close>

lemma erfPoly_deriv: "(erfPoly has_real_derivative erfPoly' t) (at t)"
  unfolding erfPoly_def [abs_def] erfPoly'_def
  by (auto intro!: derivative_eq_intros simp: power2_eq_square power3_eq_cube power4_eq_xxxx algebra_simps)

lemma erfPoly'_pos: "0 < erfPoly' t"
proof -
  have eq: "erfPoly' t = 5 * (t^2 - 0.5812608108 * t)^2 + (t - 0.284496736)^2
      + 0.307027145 * (t^2)^2 + (1968650715175791271/1250000000000000000) * t^2
      + 169815624223971/976562500000000"
    unfolding erfPoly'_def
    by (simp add: power2_eq_square power3_eq_cube power4_eq_xxxx algebra_simps)
  have "0 \<le> 5 * (t^2 - 0.5812608108 * t)^2" "0 \<le> (t - 0.284496736)^2"
    "0 \<le> 0.307027145 * (t^2)^2" "0 \<le> (1968650715175791271/1250000000000000000) * t^2"
    by simp_all
  then show ?thesis unfolding eq by linarith
qed

lemma erfPoly_strict_mono: "s < t \<Longrightarrow> erfPoly s < erfPoly t"
  by (rule DERIV_pos_imp_increasing [of s t erfPoly]) (auto intro: erfPoly_deriv erfPoly'_pos)

lemma erfPoly_mono: "s \<le> t \<Longrightarrow> erfPoly s \<le> erfPoly t"
  using erfPoly_strict_mono [of s t] by (cases "s = t") auto

lemma erfPoly_0: "erfPoly 0 = 0"
  by (simp add: erfPoly_def)

lemma erfPoly_1: "erfPoly 1 = 999999999 / 1000000000"
  by (simp add: erfPoly_def)

lemma erfPoly_pos: "0 < t \<Longrightarrow> 0 < erfPoly t"
  using erfPoly_strict_mono [of 0 t] by (simp add: erfPoly_0)

lemma half_sign_split:
  "0.5 * (1.0 + (if x < 0 then - 1 else 1) * (1.0 - q)) = (if x < (0::real) then q / 2 else 1 - q / (2::real))"
  by simp

lemma normalCDF_alt:
  "normalCDF x = (if x < 0 then erfTail (\<bar>x\<bar> / sqrt 2) / 2 else 1 - erfTail (\<bar>x\<bar> / sqrt 2) / 2)"
  unfolding normalCDF_def erfTail_def erfPoly_def Let_def by (rule half_sign_split)

lemma erfTail_antimono:
  assumes "0 \<le> u" and "u \<le> v"
  shows "erfTail v \<le> erfTail u"
proof -
  have pos: "0 < 1 + 0.3275911 * u" using assms by simp
  have "1 / (1 + 0.3275911 * v) \<le> 1 / (1 + 0.3275911 * u)"
    using assms pos by (intro divide_left_mono) (auto intro: mult_pos_pos add_pos_nonneg)
  then have p: "erfPoly (1 / (1 + 0.3275911 * v)) \<le> erfPoly (1 / (1 + 0.3275911 * u))"
    by (rule erfPoly_mono)
  have "u * u \<le> v * v" using assms by (intro mult_mono) auto
  then have e: "exp (- v * v) \<le> exp (- u * u)" by simp
  have "0 < 1 / (1 + 0.3275911 * v)" using assms by simp
  then have "0 \<le> erfPoly (1 / (1 + 0.3275911 * v))"
    using erfPoly_pos by (simp add: less_imp_le)
  then show ?thesis
    unfolding erfTail_def using p e by (intro mult_mono) auto
qed

lemma erfTail_pos: "0 \<le> u \<Longrightarrow> 0 < erfTail u"
  unfolding erfTail_def by (intro mult_pos_pos erfPoly_pos) auto

lemma erfTail_less_one: 
  assumes "0 \<le> u" shows "erfTail u < 1"
proof -
  have "erfTail u \<le> erfTail 0" using assms by (intro erfTail_antimono) auto
  also have "erfTail 0 < 1" by (simp add: erfTail_def erfPoly_1)
  finally show ?thesis .
qed

lemma normalCDF_mono:
  assumes "x \<le> y"
  shows "normalCDF x \<le> normalCDF y"
proof -
  have sq: "0 < sqrt (2::real)" by simp
  consider "y < 0" | "x < 0" "0 \<le> y" | "0 \<le> x" by linarith
  then show ?thesis
  proof cases
    case 1
    then have "\<bar>y\<bar> / sqrt 2 \<le> \<bar>x\<bar> / sqrt 2" using assms by (intro divide_right_mono) auto
    then have "erfTail (\<bar>x\<bar> / sqrt 2) \<le> erfTail (\<bar>y\<bar> / sqrt 2)"
      by (intro erfTail_antimono) auto
    then show ?thesis using 1 assms by (simp add: normalCDF_alt)
  next
    case 2
    have "erfTail (\<bar>x\<bar> / sqrt 2) < 1" "erfTail (\<bar>y\<bar> / sqrt 2) < 1"
      by (intro erfTail_less_one; simp)+
    then show ?thesis using 2 by (simp add: normalCDF_alt)
  next
    case 3
    then have "\<bar>x\<bar> / sqrt 2 \<le> \<bar>y\<bar> / sqrt 2" using assms by (intro divide_right_mono) auto
    then have "erfTail (\<bar>y\<bar> / sqrt 2) \<le> erfTail (\<bar>x\<bar> / sqrt 2)"
      by (intro erfTail_antimono) auto
    then show ?thesis using 3 assms by (simp add: normalCDF_alt)
  qed
qed

lemma normalCDF_pos: "0 < normalCDF x"
proof -
  define q where "q = erfTail (\<bar>x\<bar> / sqrt 2)"
  have "0 < q" "q < 1"
    unfolding q_def by (intro erfTail_pos erfTail_less_one; simp)+
  moreover have "normalCDF x = (if x < 0 then q / 2 else 1 - q / 2)"
    unfolding q_def by (rule normalCDF_alt)
  ultimately show ?thesis by simp
qed

lemma lognormCDF_nonneg: "0 \<le> lognormCDF x sigma scale"
  using normalCDF_pos [of "(ln x - ln scale) / sigma"] by (simp add: lognormCDF_def)

lemma lognormCDF_one_pos: "0 < lognormCDF 1.0 sigma scale"
  using normalCDF_pos [of "(ln 1 - ln scale) / sigma"] by (simp add: lognormCDF_def)

lemma lognormCDF_mono:
  assumes "0 < sigma" and "x \<le> y"
  shows "lognormCDF x sigma scale \<le> lognormCDF y sigma scale"
proof (cases "x \<le> 0")
  case True
  then show ?thesis using lognormCDF_nonneg [of y sigma scale] by (simp add: lognormCDF_def)
next
  case False
  then have "ln x \<le> ln y" using assms by simp
  then have "(ln x - ln scale) / sigma \<le> (ln y - ln scale) / sigma"
    using assms by (intro divide_right_mono) auto
  then show ?thesis using False assms by (simp add: lognormCDF_def normalCDF_mono)
qed

lemma normalised_fraction_bounds:
  assumes "0 < sigma" and "x \<le> 1"
  shows "0 \<le> lognormCDF x sigma scale / lognormCDF 1.0 sigma scale"
    and "lognormCDF x sigma scale / lognormCDF 1.0 sigma scale \<le> 1"
proof -
  have m: "0 < lognormCDF 1.0 sigma scale" by (rule lognormCDF_one_pos)
  show "0 \<le> lognormCDF x sigma scale / lognormCDF 1.0 sigma scale"
    using m lognormCDF_nonneg [of x sigma scale] by simp
  have "lognormCDF x sigma scale \<le> lognormCDF 1.0 sigma scale"
    using assms lognormCDF_mono [of sigma x "1.0" scale] by simp
  then show "lognormCDF x sigma scale / lognormCDF 1.0 sigma scale \<le> 1"
    using m by simp
qed


subsection \<open>Range of the two curves\<close>

lemma arrivalsExitLogNormal_range:
  assumes "0 \<le> N" and "0 < sigma"
  shows "0 \<le> arrivalsExitLogNormal t N tLand tEnd sigma medianFraction"
    and "arrivalsExitLogNormal t N tLand tEnd sigma medianFraction \<le> N"
proof -
  define r where "r = lognormCDF ((t - tLand) / (tEnd - tLand)) sigma medianFraction
                        / lognormCDF 1.0 sigma medianFraction"
  have eq: "arrivalsExitLogNormal t N tLand tEnd sigma medianFraction =
      (if t \<le> tLand then N else if t \<ge> tEnd then 0 else N - N * r)"
    by (simp add: arrivalsExitLogNormal_def r_def Let_def)
  have r: "0 \<le> r \<and> r \<le> 1" if "tLand < t" "t < tEnd"
  proof -
    have "(t - tLand) / (tEnd - tLand) \<le> 1" using that by simp
    then show ?thesis unfolding r_def using assms normalised_fraction_bounds by blast
  qed
  have "0 \<le> N - N * r \<and> N - N * r \<le> N" if "tLand < t" "t < tEnd"
  proof -
    have "N * r \<le> N * 1" using r [OF that] assms by (intro mult_left_mono) auto
    moreover have "0 \<le> N * r" using r [OF that] assms by simp
    ultimately show ?thesis by simp
  qed
  then show "0 \<le> arrivalsExitLogNormal t N tLand tEnd sigma medianFraction"
    and "arrivalsExitLogNormal t N tLand tEnd sigma medianFraction \<le> N"
    using assms unfolding eq by auto
qed

lemma passengersLogNormal_range:
  assumes "0 \<le> N" and "0 < sigma"
  shows "0 \<le> passengersLogNormal t N tOpen tDep sigma medianFraction"
    and "passengersLogNormal t N tOpen tDep sigma medianFraction \<le> N"
proof -
  define r where "r = lognormCDF ((t - tOpen) / (tDep - tOpen)) sigma medianFraction
                        / lognormCDF 1.0 sigma medianFraction"
  have eq: "passengersLogNormal t N tOpen tDep sigma medianFraction =
      (if t \<le> tOpen then 0 else if t \<ge> tDep then N else N * r)"
    by (simp add: passengersLogNormal_def r_def Let_def)
  have r: "0 \<le> r \<and> r \<le> 1" if "tOpen < t" "t < tDep"
  proof -
    have "(t - tOpen) / (tDep - tOpen) \<le> 1" using that by simp
    then show ?thesis unfolding r_def using assms normalised_fraction_bounds by blast
  qed
  have "0 \<le> N * r \<and> N * r \<le> N" if "tOpen < t" "t < tDep"
  proof -
    have "N * r \<le> N * 1" using r [OF that] assms by (intro mult_left_mono) auto
    moreover have "0 \<le> N * r" using r [OF that] assms by simp
    ultimately show ?thesis by simp
  qed
  then show "0 \<le> passengersLogNormal t N tOpen tDep sigma medianFraction"
    and "passengersLogNormal t N tOpen tDep sigma medianFraction \<le> N"
    using assms unfolding eq by auto
qed

subsection \<open>The five-minute loop\<close>

lemma fiveMinuteSteps_Nil_iff: "fiveMinuteSteps t tMax = [] \<longleftrightarrow> tMax < t"
  by (subst fiveMinuteSteps.simps) auto

lemma set_fiveMinuteSteps:
  "u \<in> set (fiveMinuteSteps t tMax) \<longleftrightarrow> t \<le> u \<and> u \<le> tMax \<and> 300 dvd (u - t)"
proof (induction t tMax rule: fiveMinuteSteps.induct)
  case (1 t tMax)
  show ?case
  proof (cases "t \<le> tMax")
    case True
    have "u \<in> set (fiveMinuteSteps t tMax) \<longleftrightarrow> u = t \<or> u \<in> set (fiveMinuteSteps (t + 300) tMax)"
      using True by (subst fiveMinuteSteps.simps) auto
    also have "\<dots> \<longleftrightarrow> u = t \<or> (t + 300 \<le> u \<and> u \<le> tMax \<and> 300 dvd (u - (t + 300)))"
      using 1 True by simp
    also have "\<dots> \<longleftrightarrow> t \<le> u \<and> u \<le> tMax \<and> 300 dvd (u - t)"
    proof -
      have d: "300 dvd (u - (t + 300)) \<longleftrightarrow> 300 dvd (u - t)"
      proof -
        have "u - (t + 300) = (u - t) - 300" by simp
        then show ?thesis
          using minus_mod_self2 [of "u - t" 300] by (simp only: dvd_eq_mod_eq_0)
      qed
      have "300 \<le> u - t" if "300 dvd (u - t)" "t \<le> u" "u \<noteq> t"
        using that zdvd_imp_le [of 300 "u - t"] by simp
      then show ?thesis using True d by auto
    qed
    finally show ?thesis .
  next
    case False
    then show ?thesis by (subst fiveMinuteSteps.simps) auto
  qed
qed

lemma last_fiveMinuteSteps:
  "t \<le> tMax \<Longrightarrow> last (fiveMinuteSteps t tMax) = tMax - (tMax - t) mod 300"
proof (induction t tMax rule: fiveMinuteSteps.induct)
  case (1 t tMax)
  show ?case
  proof (cases "t + 300 \<le> tMax")
    case True
    have "fiveMinuteSteps t tMax = t # fiveMinuteSteps (t + 300) tMax"
      using 1(2) by (subst fiveMinuteSteps.simps) simp
    moreover have "fiveMinuteSteps (t + 300) tMax \<noteq> []"
      using True by (simp add: fiveMinuteSteps_Nil_iff)
    ultimately have "last (fiveMinuteSteps t tMax) = last (fiveMinuteSteps (t + 300) tMax)"
      by simp
    also have "\<dots> = tMax - (tMax - (t + 300)) mod 300"
      using 1 True by simp
    also have "\<dots> = tMax - (tMax - t) mod 300"
      using minus_mod_self2 [of "tMax - t" 300] by (simp add: algebra_simps)
    finally show ?thesis .
  next
    case False
    have "fiveMinuteSteps (t + 300) tMax = []"
      using False by (simp add: fiveMinuteSteps_Nil_iff)
    then have "fiveMinuteSteps t tMax = [t]"
      using 1(2) by (subst fiveMinuteSteps.simps) simp
    moreover have "(tMax - t) mod 300 = tMax - t"
      using False 1(2) by simp
    ultimately show ?thesis by simp
  qed
qed

lemma nth_fiveMinuteSteps:
  "t + 300 * int k \<le> tMax \<Longrightarrow>
     k < length (fiveMinuteSteps t tMax) \<and> fiveMinuteSteps t tMax ! k = t + 300 * int k"
proof (induction k arbitrary: t)
  case 0
  then show ?case by (subst (1 2) fiveMinuteSteps.simps) simp
next
  case (Suc k)
  have le: "t \<le> tMax" using Suc.prems by simp
  have "(t + 300) + 300 * int k \<le> tMax" using Suc.prems by simp
  from Suc.IH [OF this] show ?case
    using le by (subst (1 2) fiveMinuteSteps.simps) (simp add: algebra_simps)
qed

subsection \<open>Rounding and hour snapping\<close>

lemma Math_round_mono: "x \<le> y \<Longrightarrow> Math_round x \<le> Math_round y"
  by (simp add: Math_round_def floor_mono)

lemma Math_round_0: "Math_round 0 = 0"
  by (simp add: Math_round_def)

lemma hour_snap_bounds:
  fixes rawStart :: int
  shows "rawStart - 3600 < rawStart - (rawStart smod 3600)"
    and "rawStart - (rawStart smod 3600) < rawStart + 3600"
  using smod_int_range [of 3600 rawStart] by simp_all

subsection \<open>The per-flight series by cases\<close>

lemma departure_window_open_before:
  fixes tDep :: int
  shows "(tDep - 10800) - ((tDep - 10800) smod 3600) < tDep"
  using hour_snap_bounds(2) [of "tDep - 10800"] by simp

lemma distribution_departure:
  assumes "anchorString fl = Some timeStr" and "timeStr \<noteq> []" and "unix timeStr = Some tDep"
    and "fTypeOf fl = Some ''departure'' \<or> fTypeOf fl = Some ''dep''"
  shows "calculatePassengerDistribution unix fl =
     (let N = paxOrDefault fl;
          tOpenSnapped = (tDep - 10800) - ((tDep - 10800) smod 3600);
          results = map (departurePoint fl N tOpenSnapped tDep) (fiveMinuteSteps tOpenSnapped tDep)
      in if 300 dvd (tDep - tOpenSnapped) then results
         else results @ [finalDeparturePoint fl N tDep])"
proof -
  define tOpenSnapped where "tOpenSnapped = (tDep - 10800) - ((tDep - 10800) smod 3600)"
  define N where "N = paxOrDefault fl"
  define results where
    "results = map (departurePoint fl N tOpenSnapped tDep) (fiveMinuteSteps tOpenSnapped tDep)"
  have lt: "tOpenSnapped < tDep"
    unfolding tOpenSnapped_def by (rule departure_window_open_before)
  then have ne: "fiveMinuteSteps tOpenSnapped tDep \<noteq> []"
    by (simp add: fiveMinuteSteps_Nil_iff)
  then have "last results = departurePoint fl N tOpenSnapped tDep (last (fiveMinuteSteps tOpenSnapped tDep))"
    unfolding results_def by (simp add: last_map)
  then have lastTime: "time (last results) = tDep - (tDep - tOpenSnapped) mod 300"
    using lt by (simp add: departurePoint_def last_fiveMinuteSteps)
  have "0 \<le> (tDep - tOpenSnapped) mod 300" by simp
  then have iff: "time (last results) < tDep \<longleftrightarrow> \<not> 300 dvd (tDep - tOpenSnapped)"
    unfolding lastTime by (auto simp: dvd_eq_mod_eq_0)
  have len: "length results > 0" using ne by (simp add: results_def)
  have nt: "fTypeOf fl \<noteq> Some ''arrival''" "fTypeOf fl \<noteq> Some ''arr''"
    using assms(4) by auto
  have "calculatePassengerDistribution unix fl =
      (if time (last results) < tDep then results @ [finalDeparturePoint fl N tDep] else results)"
    using assms nt len
    by (simp add: calculatePassengerDistribution_def Let_def results_def tOpenSnapped_def N_def)
  then show ?thesis
    using iff by (simp add: Let_def results_def tOpenSnapped_def N_def)
qed

lemma distribution_arrival:
  assumes "anchorString fl = Some timeStr" and "timeStr \<noteq> []" and "unix timeStr = Some tLand"
    and "fTypeOf fl = Some ''arrival'' \<or> fTypeOf fl = Some ''arr''"
  shows "calculatePassengerDistribution unix fl =
     map (arrivalPoint fl (paxOrDefault fl) tLand (tLand + 5400))
       (fiveMinuteSteps (\<lceil>real_of_int tLand / 300\<rceil> * 300) (tLand + 5400))"
  using assms by (simp add: calculatePassengerDistribution_def Let_def)

lemma distribution_cases:
  "calculatePassengerDistribution unix fl = [] \<or>
   (\<exists>tLand. calculatePassengerDistribution unix fl =
       map (arrivalPoint fl (paxOrDefault fl) tLand (tLand + 5400))
         (fiveMinuteSteps (\<lceil>real_of_int tLand / 300\<rceil> * 300) (tLand + 5400))) \<or>
   (\<exists>tDep. calculatePassengerDistribution unix fl =
     (let N = paxOrDefault fl;
          tOpenSnapped = (tDep - 10800) - ((tDep - 10800) smod 3600);
          results = map (departurePoint fl N tOpenSnapped tDep) (fiveMinuteSteps tOpenSnapped tDep)
      in if 300 dvd (tDep - tOpenSnapped) then results
         else results @ [finalDeparturePoint fl N tDep]))"
proof (cases "anchorString fl")
  case None
  then show ?thesis by (simp add: calculatePassengerDistribution_def)
next
  case (Some timeStr)
  show ?thesis
  proof (cases "timeStr = []")
    case True
    then show ?thesis using Some by (simp add: calculatePassengerDistribution_def)
  next
    case ne: False
    show ?thesis
    proof (cases "unix timeStr")
      case None
      then show ?thesis using Some ne by (simp add: calculatePassengerDistribution_def)
    next
      case (Some t)
      note u = this
      consider "fTypeOf fl = Some ''arrival'' \<or> fTypeOf fl = Some ''arr''"
        | "fTypeOf fl = Some ''departure'' \<or> fTypeOf fl = Some ''dep''"
        | "fTypeOf fl \<noteq> Some ''arrival''" "fTypeOf fl \<noteq> Some ''arr''"
          "fTypeOf fl \<noteq> Some ''departure''" "fTypeOf fl \<noteq> Some ''dep''"
        by blast
      then show ?thesis
      proof cases
        case 1
        then show ?thesis
          using distribution_arrival [of fl timeStr unix t] \<open>anchorString fl = Some timeStr\<close> ne u
          by blast
      next
        case 2
        then show ?thesis
          using distribution_departure [of fl timeStr unix t] \<open>anchorString fl = Some timeStr\<close> ne u
          by blast
      next
        case 3
        then show ?thesis
          using \<open>anchorString fl = Some timeStr\<close> ne u
          by (simp add: calculatePassengerDistribution_def Let_def)
      qed
    qed
  qed
qed

lemma toLowerCase_departure_words:
  "toLowerCase ''dep'' = ''dep''" "toLowerCase ''departure'' = ''departure''"
  by (simp_all add: toLowerCase_def toLowerCase_char_def)

subsection \<open>Counts of single points\<close>

lemma arrivalPoint_count_range:
  assumes "0 \<le> N"
  shows "0 \<le> passenger_count (arrivalPoint fl N tLand tEnd t)"
    and "passenger_count (arrivalPoint fl N tLand tEnd t) \<le> Math_round N"
proof -
  have "0 \<le> arrivalsExitLogNormal (of_int t) N (of_int tLand) (of_int tEnd) 0.3 0.3"
    and "arrivalsExitLogNormal (of_int t) N (of_int tLand) (of_int tEnd) 0.3 0.3 \<le> N"
    using assms by (intro arrivalsExitLogNormal_range; simp)+
  then show "0 \<le> passenger_count (arrivalPoint fl N tLand tEnd t)"
    and "passenger_count (arrivalPoint fl N tLand tEnd t) \<le> Math_round N"
    using Math_round_mono Math_round_0 by (simp_all add: arrivalPoint_def Let_def) metis
qed

lemma departurePoint_count_range:
  assumes "0 \<le> N"
  shows "0 \<le> passenger_count (departurePoint fl N tOpen tDep t)"
    and "passenger_count (departurePoint fl N tOpen tDep t) \<le> Math_round N"
proof -
  have "0 \<le> passengersLogNormal (of_int t) N (of_int tOpen) (of_int tDep) 0.5 0.7"
    and "passengersLogNormal (of_int t) N (of_int tOpen) (of_int tDep) 0.5 0.7 \<le> N"
    using assms by (intro passengersLogNormal_range; simp)+
  then show "0 \<le> passenger_count (departurePoint fl N tOpen tDep t)"
    and "passenger_count (departurePoint fl N tOpen tDep t) \<le> Math_round N"
    using Math_round_mono Math_round_0 by (simp_all add: departurePoint_def Let_def) metis
qed

lemma finalDeparturePoint_count_range:
  assumes "0 \<le> N"
  shows "0 \<le> passenger_count (finalDeparturePoint fl N tDep)"
    and "passenger_count (finalDeparturePoint fl N tDep) \<le> Math_round N"
  using assms Math_round_mono [of 0 N] by (simp_all add: finalDeparturePoint_def Math_round_0)

subsection \<open>Column keys\<close>

lemma digit_char_inj:
  assumes "m < 10" and "n < 10" and "char_of (48 + m) = (char_of (48 + n) :: char)"
  shows "m = (n::nat)"
proof -
  have "of_char (char_of (48 + m) :: char) = (of_char (char_of (48 + n) :: char) :: nat)"
    using assms(3) by simp
  then have "(48 + m) mod 256 = (48 + n) mod 256"
    by (simp only: of_char_of)
  then show ?thesis using assms(1,2) by simp
qed

lemma string_of_nat_nonempty: "string_of_nat n \<noteq> []"
  by (subst string_of_nat.simps) simp

lemma string_of_nat_inj: "string_of_nat m = string_of_nat n \<Longrightarrow> m = n"
proof (induction m arbitrary: n rule: string_of_nat.induct)
  case (1 m)
  show ?case
  proof (cases "m < 10")
    case True
    then have m: "string_of_nat m = [char_of (48 + m)]" by (subst string_of_nat.simps) simp
    show ?thesis
    proof (cases "n < 10")
      case True
      then have "string_of_nat n = [char_of (48 + n)]" by (subst string_of_nat.simps) simp
      then show ?thesis using m 1(2) \<open>m < 10\<close> True digit_char_inj by auto
    next
      case False
      then have "string_of_nat n = string_of_nat (n div 10) @ [char_of (48 + n mod 10)]"
        by (subst string_of_nat.simps) simp
      then show ?thesis using m 1(2) string_of_nat_nonempty [of "n div 10"] by simp
    qed
  next
    case False
    then have m: "string_of_nat m = string_of_nat (m div 10) @ [char_of (48 + m mod 10)]"
      by (subst string_of_nat.simps) simp
    show ?thesis
    proof (cases "n < 10")
      case True
      then have "string_of_nat n = [char_of (48 + n)]" by (subst string_of_nat.simps) simp
      then show ?thesis using m 1(2) string_of_nat_nonempty [of "m div 10"] by simp
    next
      case nf: False
      then have n: "string_of_nat n = string_of_nat (n div 10) @ [char_of (48 + n mod 10)]"
        by (subst string_of_nat.simps) simp
      from m n 1(2) have a: "string_of_nat (m div 10) = string_of_nat (n div 10)"
        and b: "char_of (48 + m mod 10) = (char_of (48 + n mod 10) :: char)"
        by simp_all
      have "m div 10 = n div 10" using 1(1) [OF False a] .
      moreover have "m mod 10 = n mod 10" using b by (intro digit_char_inj) simp_all
      ultimately show ?thesis by (metis div_mult_mod_eq)
    qed
  qed
qed

lemma columnKeyOf_inj: "columnKeyOf i = columnKeyOf j \<Longrightarrow> i = j"
  by (simp add: columnKeyOf_def string_of_nat_inj)

lemma columnKeyOf_not_fixed:
  "columnKeyOf i \<noteq> ''time''" "columnKeyOf i \<noteq> ''time_formatted''" "columnKeyOf i \<noteq> ''total''"
  by (simp_all add: columnKeyOf_def)

subsection \<open>Flight data of the grid\<close>

lemma those_eq_Some: "those xs = Some ys \<Longrightarrow> xs = map Some ys"
  by (induction xs arbitrary: ys) (auto split: option.splits)

lemma flightDataOf_length: "length (flightDataOf unix flights) = length flights"
  by (simp add: flightDataOf_def)

lemma flightDataOf_nth:
  "i < length flights \<Longrightarrow> flightDataOf unix flights ! i = flightDatum unix (flights ! i) i"
  by (simp add: flightDataOf_def)

lemma flightData_nth:
  assumes "those (flightDataOf unix flights) = Some flightData"
  shows "length flightData = length flights"
    and "i < length flights \<Longrightarrow> flightDatum unix (flights ! i) i = Some (flightData ! i)"
proof -
  have eq: "flightDataOf unix flights = map Some flightData"
    using assms by (rule those_eq_Some)
  then show len: "length flightData = length flights"
    using flightDataOf_length [of unix flights] by simp
  show "flightDatum unix (flights ! i) i = Some (flightData ! i)" if "i < length flights"
    using that eq len flightDataOf_nth [of i flights unix] by simp
qed

lemma flightDatum_fields:
  assumes "flightDatum unix f i = Some fd"
  shows "columnKey fd = columnKeyOf i"
    and "fd_N fd = paxOrDefault f"
    and "isArrival fd = (fTypeOf f = Some ''arrival'' \<or> fTypeOf f = Some ''arr'')"
    and "windowStart fd = (if isArrival fd then tActual fd
                           else (tActual fd - 10800) - ((tActual fd - 10800) smod 3600))"
    and "windowEnd fd = (if isArrival fd then tActual fd + 5400 else tActual fd)"
    and "falsy (anchorString f) \<Longrightarrow> tActual fd = 0"
    and "anchorString f = Some s \<Longrightarrow> s \<noteq> [] \<Longrightarrow> unix s = Some (tActual fd)"
  using assms by (auto simp: flightDatum_def falsy_def Let_def split: option.splits if_splits)

lemma flightData_keys:
  assumes "those (flightDataOf unix flights) = Some flightData"
  shows "map columnKey flightData = map columnKeyOf [0 ..< length flights]"
proof (rule nth_equalityI)
  show "length (map columnKey flightData) = length (map columnKeyOf [0 ..< length flights])"
    using flightData_nth(1) [OF assms] by simp
next
  fix i assume "i < length (map columnKey flightData)"
  then have i: "i < length flights" using flightData_nth(1) [OF assms] by simp
  then have "flightDatum unix (flights ! i) i = Some (flightData ! i)"
    using flightData_nth(2) [OF assms] by simp
  then have "columnKey (flightData ! i) = columnKeyOf i"
    by (simp add: flightDatum_fields(1))
  then show "map columnKey flightData ! i = map columnKeyOf [0 ..< length flights] ! i"
    using i flightData_nth(1) [OF assms] by simp
qed

lemma distinct_columnKeys: "distinct (map columnKeyOf [0 ..< n])"
  by (simp add: distinct_map inj_on_def columnKeyOf_inj)

subsection \<open>The inner loop of the grid\<close>

lemma addFlightColumn_step:
  "addFlightColumn t (row, tot) fd =
     (row(columnKey fd \<mapsto> Num (roundedPassengers fd t)), tot + roundedPassengers fd t)"
  by (simp add: addFlightColumn_def Let_def)

lemma foldl_addFlightColumn_total:
  "snd (foldl (addFlightColumn t) (row, tot) fds) =
     tot + sum_list (map (\<lambda>fd. roundedPassengers fd t) fds)"
  by (induction fds arbitrary: row tot) (simp_all add: addFlightColumn_step)

lemma foldl_addFlightColumn_other:
  "k \<notin> columnKey ` set fds \<Longrightarrow> fst (foldl (addFlightColumn t) (row, tot) fds) k = row k"
  by (induction fds arbitrary: row tot) (simp_all add: addFlightColumn_step)

lemma foldl_addFlightColumn_dom:
  "dom (fst (foldl (addFlightColumn t) (row, tot) fds)) = dom row \<union> columnKey ` set fds"
  by (induction fds arbitrary: row tot) (auto simp: addFlightColumn_step)

lemma foldl_addFlightColumn_column:
  "distinct (map columnKey fds) \<Longrightarrow> i < length fds \<Longrightarrow>
     fst (foldl (addFlightColumn t) (row, tot) fds) (columnKey (fds ! i)) =
       Some (Num (roundedPassengers (fds ! i) t))"
proof (induction fds arbitrary: row tot i)
  case Nil
  then show ?case by simp
next
  case (Cons fd fds)
  show ?case
  proof (cases i)
    case 0
    have "columnKey fd \<notin> columnKey ` set fds" using Cons.prems(1) by simp
    then show ?thesis
      using 0 by (simp add: addFlightColumn_step foldl_addFlightColumn_other)
  next
    case (Suc j)
    then show ?thesis
      using Cons.prems Cons.IH [of j] by (simp add: addFlightColumn_step)
  qed
qed

lemma gridRow_total:
  "gridRow fds t ''total'' = Some (Num (sum_list (map (\<lambda>fd. roundedPassengers fd t) fds)))"
proof -
  obtain row tot where f: "foldl (addFlightColumn t)
      ([''time'' \<mapsto> Num t, ''time_formatted'' \<mapsto> Str (format_HHmm t)], 0) fds = (row, tot)"
    by (cases "foldl (addFlightColumn t)
      ([''time'' \<mapsto> Num t, ''time_formatted'' \<mapsto> Str (format_HHmm t)], 0) fds")
  have "tot = sum_list (map (\<lambda>fd. roundedPassengers fd t) fds)"
    using foldl_addFlightColumn_total
      [of t "[''time'' \<mapsto> Num t, ''time_formatted'' \<mapsto> Str (format_HHmm t)]" 0 fds] f
    by simp
  then show ?thesis by (simp add: gridRow_def Let_def f)
qed

lemma gridRow_time:
  assumes "''time'' \<notin> columnKey ` set fds"
  shows "gridRow fds t ''time'' = Some (Num t)"
proof -
  obtain row tot where f: "foldl (addFlightColumn t)
      ([''time'' \<mapsto> Num t, ''time_formatted'' \<mapsto> Str (format_HHmm t)], 0) fds = (row, tot)"
    by (cases "foldl (addFlightColumn t)
      ([''time'' \<mapsto> Num t, ''time_formatted'' \<mapsto> Str (format_HHmm t)], 0) fds")
  have "row ''time'' = Some (Num t)"
    using foldl_addFlightColumn_other
      [OF assms, of t "[''time'' \<mapsto> Num t, ''time_formatted'' \<mapsto> Str (format_HHmm t)]" 0] f
    by simp
  then show ?thesis by (simp add: gridRow_def Let_def f)
qed

lemma gridRow_column:
  assumes "distinct (map columnKey fds)" and "i < length fds" and "columnKey (fds ! i) \<noteq> ''total''"
  shows "gridRow fds t (columnKey (fds ! i)) = Some (Num (roundedPassengers (fds ! i) t))"
proof -
  obtain row tot where f: "foldl (addFlightColumn t)
      ([''time'' \<mapsto> Num t, ''time_formatted'' \<mapsto> Str (format_HHmm t)], 0) fds = (row, tot)"
    by (cases "foldl (addFlightColumn t)
      ([''time'' \<mapsto> Num t, ''time_formatted'' \<mapsto> Str (format_HHmm t)], 0) fds")
  have "row (columnKey (fds ! i)) = Some (Num (roundedPassengers (fds ! i) t))"
    using foldl_addFlightColumn_column
      [OF assms(1,2), of t "[''time'' \<mapsto> Num t, ''time_formatted'' \<mapsto> Str (format_HHmm t)]" 0] f
    by simp
  then show ?thesis using assms(3) by (simp add: gridRow_def Let_def f)
qed

lemma gridRow_dom:
  "dom (gridRow fds t) = {''time'', ''time_formatted'', ''total''} \<union> columnKey ` set fds"
proof -
  obtain row tot where f: "foldl (addFlightColumn t)
      ([''time'' \<mapsto> Num t, ''time_formatted'' \<mapsto> Str (format_HHmm t)], 0) fds = (row, tot)"
    by (cases "foldl (addFlightColumn t)
      ([''time'' \<mapsto> Num t, ''time_formatted'' \<mapsto> Str (format_HHmm t)], 0) fds")
  have "dom row = {''time'', ''time_formatted''} \<union> columnKey ` set fds"
    using foldl_addFlightColumn_dom
      [of t "[''time'' \<mapsto> Num t, ''time_formatted'' \<mapsto> Str (format_HHmm t)]" 0 fds] f
    by auto
  then show ?thesis by (auto simp: gridRow_def Let_def f)
qed

subsection \<open>Rows of the grid\<close>

lemma grid_rows:
  assumes "row \<in> set (calculatePassengerGridData unix flights)"
  shows "\<exists>flightData t. those (flightDataOf unix flights) = Some flightData \<and>
           row = gridRow flightData t"
proof (cases "those (flightDataOf unix flights)")
  case None
  then show ?thesis using assms by (simp add: calculatePassengerGridData_def split: if_splits)
next
  case (Some flightData)
  then show ?thesis
    using assms by (auto simp: calculatePassengerGridData_def Let_def split: if_splits)
qed

lemma grid_row_columns:
  assumes "those (flightDataOf unix flights) = Some flightData"
  shows "gridRow flightData t ''total'' =
           Some (Num (sum_list (map (\<lambda>fd. roundedPassengers fd t) flightData)))"
    and "gridRow flightData t ''time'' = Some (Num t)"
    and "i < length flights \<Longrightarrow>
           gridRow flightData t (columnKeyOf i) = Some (Num (roundedPassengers (flightData ! i) t))"
    and "dom (gridRow flightData t) =
           {''time'', ''time_formatted'', ''total''} \<union> columnKeyOf ` {0 ..< length flights}"
proof -
  note keys = flightData_keys [OF assms]
  note len = flightData_nth(1) [OF assms]
  show "gridRow flightData t ''total'' =
           Some (Num (sum_list (map (\<lambda>fd. roundedPassengers fd t) flightData)))"
    by (rule gridRow_total)
  have img: "columnKey ` set flightData = columnKeyOf ` {0 ..< length flights}"
    using arg_cong [OF keys, of set] by simp
  show "dom (gridRow flightData t) =
           {''time'', ''time_formatted'', ''total''} \<union> columnKeyOf ` {0 ..< length flights}"
    by (simp only: gridRow_dom img)
  from img have "''time'' \<notin> columnKey ` set flightData"
    using columnKeyOf_not_fixed(1) by (metis imageE)
  then show "gridRow flightData t ''time'' = Some (Num t)"
    by (rule gridRow_time)
  show "gridRow flightData t (columnKeyOf i) = Some (Num (roundedPassengers (flightData ! i) t))"
    if i: "i < length flights"
  proof -
    have k: "columnKey (flightData ! i) = columnKeyOf i"
      using arg_cong [OF keys, of "\<lambda>xs. xs ! i"] i len by simp
    have "distinct (map columnKey flightData)"
      unfolding keys by (rule distinct_columnKeys)
    then show ?thesis
      using gridRow_column [of flightData i t] i len k columnKeyOf_not_fixed(3) [of i] by simp
  qed
qed

lemma roundedPassengers_amended:
  "roundedPassengers fd t = cellAsAmended (isArrival fd) (tActual fd) (fd_N fd) t"
  by (simp add: roundedPassengers_def cellAsAmended_def modelAt_def hourSnapped_def Let_def
      Math_round_0)

lemma grid_eq:
  assumes "those (flightDataOf unix flights) = Some flightData" and "flights \<noteq> []"
  shows "calculatePassengerGridData unix flights =
           map (gridRow flightData)
             (fiveMinuteSteps (\<lfloor>real_of_int (Min (set (map windowStart flightData))) / 300\<rfloor> * 300)
                (Max (set (map windowEnd flightData)) + 7200))"
  using assms by (simp add: calculatePassengerGridData_def Let_def)

lemma grid_nth:
  assumes "those (flightDataOf unix flights) = Some flightData" and "flights \<noteq> []"
    and "\<lfloor>real_of_int (Min (set (map windowStart flightData))) / 300\<rfloor> * 300 = startTime"
    and "Max (set (map windowEnd flightData)) + 7200 = maxTime"
    and "startTime + 300 * int k \<le> maxTime"
  shows "k < length (calculatePassengerGridData unix flights)"
    and "calculatePassengerGridData unix flights ! k = gridRow flightData (startTime + 300 * int k)"
  using nth_fiveMinuteSteps [OF assms(5)] grid_eq [OF assms(1,2)] assms(3,4) by simp_all

subsection \<open>Evaluation of the example inputs\<close>

lemma toLowerCase_examples:
  "toLowerCase ''Arrival'' = ''arrival''" "toLowerCase ''arrival'' = ''arrival''"
  "toLowerCase ''departure'' = ''departure''" "toLowerCase ''cargo'' = ''cargo''"
  by code_simp+

lemma columnKeyOf_examples: "columnKeyOf 0 = ''flight_0''" "columnKeyOf (Suc 0) = ''flight_1''"
  by code_simp+

lemma string_of_nat_examples: "string_of_nat 0 = ''0''" "string_of_nat (Suc 0) = ''1''"
  by code_simp+

lemma example_pair_flightData:
  "those (flightDataOf exampleUnix [exampleArrival, exampleDeparture]) =
     Some [\<lparr>flight = exampleArrival, index = 0, columnKey = ''flight_0'', tActual = 0,
             isArrival = True, fd_N = 50, windowStart = 0, windowEnd = 5400\<rparr>,
           \<lparr>flight = exampleDeparture, index = 1, columnKey = ''flight_1'', tActual = 10800,
             isArrival = False, fd_N = 60, windowStart = 0, windowEnd = 10800\<rparr>]"
  by (simp add: flightDataOf_def flightDatum_def exampleArrival_def exampleDeparture_def
      exampleFlight_def exampleUnix_def anchorString_def falsy_def fTypeOf_def paxOrDefault_def
      toLowerCase_examples columnKeyOf_examples upt_rec Let_def)

lemma example_pair_nonempty: "[exampleArrival, exampleDeparture] \<noteq> []"
  by simp

lemma example_pair_row:
  assumes "300 * int k \<le> 18000"
  shows "k < length (calculatePassengerGridData exampleUnix [exampleArrival, exampleDeparture])"
    and "calculatePassengerGridData exampleUnix [exampleArrival, exampleDeparture] ! k \<in>
           set (calculatePassengerGridData exampleUnix [exampleArrival, exampleDeparture])"
    and "(calculatePassengerGridData exampleUnix [exampleArrival, exampleDeparture] ! k) ''time'' =
           Some (Num (300 * int k))"
    and "(calculatePassengerGridData exampleUnix [exampleArrival, exampleDeparture] ! k) ''flight_0'' =
           Some (Num (cellAsAmended True 0 50 (300 * int k)))"
    and "(calculatePassengerGridData exampleUnix [exampleArrival, exampleDeparture] ! k) ''flight_1'' =
           Some (Num (cellAsAmended False 10800 60 (300 * int k)))"
proof -
  note fd = example_pair_flightData
  have a: "0 + 300 * int k \<le> 18000" using assms by simp
  note nth = grid_nth [OF fd example_pair_nonempty _ _ a]
  show len: "k < length (calculatePassengerGridData exampleUnix [exampleArrival, exampleDeparture])"
    by (rule nth(1)) simp_all
  then show "calculatePassengerGridData exampleUnix [exampleArrival, exampleDeparture] ! k \<in>
           set (calculatePassengerGridData exampleUnix [exampleArrival, exampleDeparture])"
    by (rule nth_mem)
  have row: "calculatePassengerGridData exampleUnix [exampleArrival, exampleDeparture] ! k =
      gridRow [\<lparr>flight = exampleArrival, index = 0, columnKey = ''flight_0'', tActual = 0,
             isArrival = True, fd_N = 50, windowStart = 0, windowEnd = 5400\<rparr>,
           \<lparr>flight = exampleDeparture, index = 1, columnKey = ''flight_1'', tActual = 10800,
             isArrival = False, fd_N = 60, windowStart = 0, windowEnd = 10800\<rparr>] (0 + 300 * int k)"
    by (rule nth(2)) simp_all
  show "(calculatePassengerGridData exampleUnix [exampleArrival, exampleDeparture] ! k) ''time'' =
           Some (Num (300 * int k))"
    using grid_row_columns(2) [OF fd, of "300 * int k"] by (simp add: row)
  show "(calculatePassengerGridData exampleUnix [exampleArrival, exampleDeparture] ! k) ''flight_0'' =
           Some (Num (cellAsAmended True 0 50 (300 * int k)))"
    using grid_row_columns(3) [OF fd, of 0 "300 * int k"]
    by (simp add: row columnKeyOf_examples roundedPassengers_amended)
  show "(calculatePassengerGridData exampleUnix [exampleArrival, exampleDeparture] ! k) ''flight_1'' =
           Some (Num (cellAsAmended False 10800 60 (300 * int k)))"
    using grid_row_columns(3) [OF fd, of 1 "300 * int k"]
    by (simp add: row columnKeyOf_examples roundedPassengers_amended)
qed

lemma example_cells:
  "cellAsAmended True 0 50 0 = 50" "cellAsAmended False 10800 60 0 = 0"
  "cellAsAmended True 0 50 10800 = 0" "cellAsAmended False 10800 60 10800 = 60"
  "cellAsAmended False 10800 60 11100 = 0" "cellAsClaimed False 10800 60 11100 = 60"
  by (simp_all add: cellAsAmended_def cellAsClaimed_def modelAt_def hourSnapped_def
      arrivalsExitLogNormal_def passengersLogNormal_def Math_round_def)

subsection \<open>Flights without anchor or with an unrecognised type, per-flight series\<close>

text \<open>
  The series generator returns the empty list for a flight whose two time strings are
  both falsy, and for a flight whose lowercased type is none of the four recognised words.
\<close>

lemma distribution_without_anchor:
  assumes "falsy (actual_time_utc fl)" and "falsy (scheduled_time_utc fl)"
  shows "calculatePassengerDistribution unix fl = []"
  using assms
  by (auto simp: calculatePassengerDistribution_def anchorString_def falsy_def split: option.splits)

lemma distribution_unrecognised_type:
  assumes "fTypeOf fl \<noteq> Some ''arrival''" and "fTypeOf fl \<noteq> Some ''arr''"
    and "fTypeOf fl \<noteq> Some ''departure''" and "fTypeOf fl \<noteq> Some ''dep''"
  shows "calculatePassengerDistribution unix fl = []"
  using assms
  by (auto simp: calculatePassengerDistribution_def Let_def split: option.splits)

lemma distribution_unparseable_anchor:
  assumes "anchorString fl = Some timeStr" and "unix timeStr = None"
  shows "calculatePassengerDistribution unix fl = []"
  using assms by (simp add: calculatePassengerDistribution_def)

subsection \<open>Single-flight grids of the examples\<close>

lemma example_single_row:
  assumes "those (flightDataOf exampleUnix [fl]) = Some [fd]"
    and "\<lfloor>real_of_int (windowStart fd) / 300\<rfloor> * 300 = startTime"
    and "startTime + 300 * int k \<le> windowEnd fd + 7200"
  shows "k < length (calculatePassengerGridData exampleUnix [fl])"
    and "(calculatePassengerGridData exampleUnix [fl] ! k) ''time'' = Some (Num (startTime + 300 * int k))"
    and "(calculatePassengerGridData exampleUnix [fl] ! k) ''flight_0'' =
           Some (Num (roundedPassengers fd (startTime + 300 * int k)))"
    and "(calculatePassengerGridData exampleUnix [fl] ! k) ''total'' =
           Some (Num (roundedPassengers fd (startTime + 300 * int k)))"
proof -
  have ne: "[fl] \<noteq> []" by simp
  have s: "\<lfloor>real_of_int (Min (set (map windowStart [fd]))) / 300\<rfloor> * 300 = startTime"
    using assms(2) by simp
  have m: "Max (set (map windowEnd [fd])) + 7200 = windowEnd fd + 7200" by simp
  note nth = grid_nth [OF assms(1) ne s m assms(3)]
  show "k < length (calculatePassengerGridData exampleUnix [fl])" by (rule nth(1))
  show "(calculatePassengerGridData exampleUnix [fl] ! k) ''time'' = Some (Num (startTime + 300 * int k))"
    using grid_row_columns(2) [OF assms(1)] by (simp add: nth(2))
  show "(calculatePassengerGridData exampleUnix [fl] ! k) ''flight_0'' =
           Some (Num (roundedPassengers fd (startTime + 300 * int k)))"
    using grid_row_columns(3) [OF assms(1), of 0 "startTime + 300 * int k"]
    by (simp add: nth(2) columnKeyOf_examples)
  show "(calculatePassengerGridData exampleUnix [fl] ! k) ''total'' =
           Some (Num (roundedPassengers fd (startTime + 300 * int k)))"
    using grid_row_columns(1) [OF assms(1), of "startTime + 300 * int k"] by (simp add: nth(2))
qed

lemma exampleCargo_flightData:
  "those (flightDataOf exampleUnix [exampleCargo]) =
     Some [\<lparr>flight = exampleCargo, index = 0, columnKey = ''flight_0'', tActual = 10800,
             isArrival = False, fd_N = 100, windowStart = 0, windowEnd = 10800\<rparr>]"
  by (simp add: flightDataOf_def flightDatum_def exampleCargo_def
      exampleFlight_def exampleUnix_def anchorString_def falsy_def fTypeOf_def paxOrDefault_def
      toLowerCase_examples columnKeyOf_examples Let_def)

lemma exampleUnanchored_flightData:
  "those (flightDataOf exampleUnix [exampleUnanchored]) =
     Some [\<lparr>flight = exampleUnanchored, index = 0, columnKey = ''flight_0'', tActual = 0,
             isArrival = False, fd_N = 100, windowStart = - 10800, windowEnd = 0\<rparr>]"
  by (simp add: flightDataOf_def flightDatum_def exampleUnanchored_def
      exampleFlight_def exampleUnix_def anchorString_def falsy_def fTypeOf_def paxOrDefault_def
      toLowerCase_examples columnKeyOf_examples Let_def)

subsection \<open>Arrival series of the examples\<close>

lemma example_arrival_series:
  assumes "fl = exampleFlight (Some ty) (Some ''1970-01-01T00:00:00Z'') (Some n)"
    and "toLowerCase ty = ''arrival''" and "n \<noteq> 0"
  shows "calculatePassengerDistribution exampleUnix fl \<noteq> []"
    and "hd (calculatePassengerDistribution exampleUnix fl) \<in>
           set (calculatePassengerDistribution exampleUnix fl)"
    and "passenger_count (hd (calculatePassengerDistribution exampleUnix fl)) = Math_round n"
    and "paxOrDefault fl = n"
proof -
  have a: "anchorString fl = Some ''1970-01-01T00:00:00Z''"
    by (simp add: assms(1) exampleFlight_def anchorString_def falsy_def)
  have b: "''1970-01-01T00:00:00Z'' \<noteq> []" by simp
  have c: "exampleUnix ''1970-01-01T00:00:00Z'' = Some 0" by (simp add: exampleUnix_def)
  have d: "fTypeOf fl = Some ''arrival'' \<or> fTypeOf fl = Some ''arr''"
    by (simp add: assms(1,2) exampleFlight_def fTypeOf_def)
  show n: "paxOrDefault fl = n"
    using assms(3) by (simp add: assms(1) exampleFlight_def paxOrDefault_def)
  have s: "fiveMinuteSteps 0 5400 = 0 # fiveMinuteSteps 300 5400"
    by (subst fiveMinuteSteps.simps) simp
  have eq: "calculatePassengerDistribution exampleUnix fl =
      arrivalPoint fl n 0 5400 0 # map (arrivalPoint fl n 0 5400) (fiveMinuteSteps 300 5400)"
    using distribution_arrival [where unix = exampleUnix, OF a b c d] by (simp add: n s)
  show "calculatePassengerDistribution exampleUnix fl \<noteq> []"
    and "hd (calculatePassengerDistribution exampleUnix fl) \<in>
           set (calculatePassengerDistribution exampleUnix fl)"
    and "passenger_count (hd (calculatePassengerDistribution exampleUnix fl)) = Math_round n"
    by (simp_all add: eq arrivalPoint_def arrivalsExitLogNormal_def)
qed

subsection \<open>What the two functions read from a flight\<close>









subsection \<open>Monotonicity of each curve\<close>



section \<open>Properties\<close>

subsection \<open>Saturation of the two curves outside the window\<close>

text \<open>
  C1. For every cohort size \<open>N\<close> (in particular every \<open>N \<ge> 0\<close>) and every window with
  \<open>tLand < tEnd\<close>, \<^verbatim>\<open>arrivalsExitLogNormal\<close> returns exactly \<open>N\<close> at every time
  \<open>t \<le> tLand\<close> and exactly \<open>0\<close> at every time \<open>t \<ge> tEnd\<close>, whatever the shape
  parameters are.
\<close>

theorem arrivalsExitLogNormal_boundaries:
  assumes "tLand < tEnd"
  shows "(t \<le> tLand \<longrightarrow> arrivalsExitLogNormal t N tLand tEnd sigma medianFraction = N) \<and>
         (t \<ge> tEnd \<longrightarrow> arrivalsExitLogNormal t N tLand tEnd sigma medianFraction = 0)"
  using assms by (simp add: arrivalsExitLogNormal_def)

theorem arrivalsExitLogNormal_boundaries_witness:
  "(0::real) < 5400 \<and> arrivalsExitLogNormal 0 80 0 5400 0.3 0.3 = 80 \<and>
   arrivalsExitLogNormal 5400 80 0 5400 0.3 0.3 = 0"
  using arrivalsExitLogNormal_boundaries [of 0 5400 0 80 "0.3" "0.3"]
    arrivalsExitLogNormal_boundaries [of 0 5400 5400 80 "0.3" "0.3"]
  by simp

text \<open>
  C2. For every cohort size \<open>N\<close> (in particular every \<open>N \<ge> 0\<close>) and every window with
  \<open>tOpen < tDep\<close>, \<^verbatim>\<open>passengersLogNormal\<close> returns exactly \<open>0\<close> at every time
  \<open>t \<le> tOpen\<close> and exactly \<open>N\<close> at every time \<open>t \<ge> tDep\<close>.
\<close>

theorem passengersLogNormal_boundaries:
  assumes "tOpen < tDep"
  shows "(t \<le> tOpen \<longrightarrow> passengersLogNormal t N tOpen tDep sigma medianFraction = 0) \<and>
         (t \<ge> tDep \<longrightarrow> passengersLogNormal t N tOpen tDep sigma medianFraction = N)"
  using assms by (simp add: passengersLogNormal_def)

theorem passengersLogNormal_boundaries_witness:
  "(0::real) < 10800 \<and> passengersLogNormal 0 150 0 10800 0.5 0.7 = 0 \<and>
   passengersLogNormal 10800 150 0 10800 0.5 0.7 = 150"
  using passengersLogNormal_boundaries [of 0 10800 0 150 "0.5" "0.7"]
    passengersLogNormal_boundaries [of 0 10800 10800 150 "0.5" "0.7"]
  by simp

subsection \<open>The log-normal helper\<close>

text \<open>
  C9. For every \<open>sigma > 0\<close> and \<open>scale > 0\<close>, \<^verbatim>\<open>lognormCDF(x, sigma, scale)\<close> is
  exactly \<open>0\<close> for every \<open>x \<le> 0\<close> (a value, no error), and for every \<open>x > 0\<close> it is
  \<^verbatim>\<open>normalCDF\<close>, the approximation of the standard normal CDF, evaluated at
  \<open>(ln x - ln scale) / sigma\<close>.
\<close>

theorem lognormCDF_cases:
  assumes "0 < sigma" and "0 < scale"
  shows "(x \<le> 0 \<longrightarrow> lognormCDF x sigma scale = 0) \<and>
         (0 < x \<longrightarrow> lognormCDF x sigma scale = normalCDF ((ln x - ln scale) / sigma))"
  by (simp add: lognormCDF_def)

theorem lognormCDF_cases_witness:
  "(0::real) < 0.3 \<and> lognormCDF (- 2) 0.3 0.3 = 0 \<and> lognormCDF 0 0.3 0.3 = 0 \<and>
   lognormCDF 1 0.3 0.3 = normalCDF ((ln 1 - ln 0.3) / 0.3)"
  using lognormCDF_cases [of "0.3" "0.3" "- 2"] lognormCDF_cases [of "0.3" "0.3" 0]
    lognormCDF_cases [of "0.3" "0.3" 1]
  by simp

subsection \<open>Monotonicity of the two curves\<close>



subsection \<open>The per-flight series\<close>

text \<open>
  C7. For every departure flight (lowercased type \<open>departure\<close> or \<open>dep\<close>) with an anchor
  time (the actual time string if truthy, else the scheduled one, denoting the instant
  \<open>tDep\<close>), the series of \<^verbatim>\<open>calculatePassengerDistribution\<close> is non-empty, and its last
  point has time exactly \<open>tDep\<close> and passenger count exactly \<open>Math.round(N)\<close>. When the
  5-minute stepping from the hour-snapped window start does not land on \<open>tDep\<close>, no stepped
  point has time \<open>tDep\<close> and the series is the stepped points followed by the explicitly
  appended final point; when it lands on \<open>tDep\<close>, the series is the stepped points alone.
\<close>

theorem departure_series_ends_with_full_count:
  assumes "anchorString fl = Some timeStr" and "timeStr \<noteq> []" and "unix timeStr = Some tDep"
    and "fTypeOf fl = Some ''departure'' \<or> fTypeOf fl = Some ''dep''"
  shows "(let series = calculatePassengerDistribution unix fl;
              N = paxOrDefault fl;
              tOpenSnapped = (tDep - 10800) - ((tDep - 10800) smod 3600);
              stepped = map (departurePoint fl N tOpenSnapped tDep) (fiveMinuteSteps tOpenSnapped tDep)
          in series \<noteq> [] \<and> time (last series) = tDep \<and> passenger_count (last series) = Math_round N \<and>
             (\<not> 300 dvd (tDep - tOpenSnapped) \<longrightarrow>
                  tDep \<notin> time ` set stepped \<and> series = stepped @ [finalDeparturePoint fl N tDep]) \<and>
             (300 dvd (tDep - tOpenSnapped) \<longrightarrow> series = stepped))"
proof -
  define N where "N = paxOrDefault fl"
  define tOpenSnapped where "tOpenSnapped = (tDep - 10800) - ((tDep - 10800) smod 3600)"
  define stepped where
    "stepped = map (departurePoint fl N tOpenSnapped tDep) (fiveMinuteSteps tOpenSnapped tDep)"
  define series where "series = calculatePassengerDistribution unix fl"
  have series: "series = (if 300 dvd (tDep - tOpenSnapped) then stepped
                          else stepped @ [finalDeparturePoint fl N tDep])"
    unfolding series_def stepped_def N_def tOpenSnapped_def
    using distribution_departure [where unix = unix and timeStr = timeStr, OF assms]
    by (simp add: Let_def)
  have lt: "tOpenSnapped < tDep"
    unfolding tOpenSnapped_def by (rule departure_window_open_before)
  then have ne: "fiveMinuteSteps tOpenSnapped tDep \<noteq> []"
    by (simp add: fiveMinuteSteps_Nil_iff)
  have times: "time ` set stepped = set (fiveMinuteSteps tOpenSnapped tDep)"
    unfolding stepped_def by (force simp: departurePoint_def)
  have "last stepped = departurePoint fl N tOpenSnapped tDep (last (fiveMinuteSteps tOpenSnapped tDep))"
    unfolding stepped_def using ne by (simp add: last_map)
  then have lastStepped: "last stepped = departurePoint fl N tOpenSnapped tDep tDep"
    if "300 dvd (tDep - tOpenSnapped)"
    using that lt by (simp add: last_fiveMinuteSteps dvd_eq_mod_eq_0)
  have atDep: "passengersLogNormal (of_int tDep) N (of_int tOpenSnapped) (of_int tDep) 0.5 0.7 = N"
    using lt by (simp add: passengersLogNormal_def)
  have 1: "series \<noteq> []" using ne by (simp add: series stepped_def)
  have 2: "time (last series) = tDep"
    using lastStepped ne
    by (simp add: series departurePoint_def finalDeparturePoint_def)
  have 3: "passenger_count (last series) = Math_round N"
    using lastStepped ne atDep
    by (simp add: series departurePoint_def finalDeparturePoint_def)
  have 4: "tDep \<notin> time ` set stepped" if "\<not> 300 dvd (tDep - tOpenSnapped)"
    using that by (simp add: times set_fiveMinuteSteps)
  show ?thesis
    using 1 2 3 4 series
    unfolding Let_def series_def [symmetric] N_def [symmetric] tOpenSnapped_def [symmetric]
      stepped_def [symmetric]
    by simp
qed

text \<open>
  C7, instances: for a departure at 03:02:00 with \<open>N = 150\<close> the stepping from 00:00 in
  steps of 300 s misses 10920 and the final point is appended; for a departure at 03:00:00
  with \<open>N = 60\<close> the stepping lands on 10800 and nothing is appended.
\<close>

theorem departure_series_ends_with_full_count_witness:
  "calculatePassengerDistribution exampleUnix exampleLateDeparture \<noteq> [] \<and>
   time (last (calculatePassengerDistribution exampleUnix exampleLateDeparture)) = 10920 \<and>
   passenger_count (last (calculatePassengerDistribution exampleUnix exampleLateDeparture)) = 150 \<and>
   calculatePassengerDistribution exampleUnix exampleLateDeparture =
     map (departurePoint exampleLateDeparture 150 0 10920) (fiveMinuteSteps 0 10920) @
       [finalDeparturePoint exampleLateDeparture 150 10920] \<and>
   calculatePassengerDistribution exampleUnix exampleDeparture \<noteq> [] \<and>
   time (last (calculatePassengerDistribution exampleUnix exampleDeparture)) = 10800 \<and>
   passenger_count (last (calculatePassengerDistribution exampleUnix exampleDeparture)) = 60 \<and>
   calculatePassengerDistribution exampleUnix exampleDeparture =
     map (departurePoint exampleDeparture 60 0 10800) (fiveMinuteSteps 0 10800)"
proof -
  have a: "anchorString exampleLateDeparture = Some ''1970-01-01T03:02:00Z''"
    by (simp add: exampleLateDeparture_def exampleFlight_def anchorString_def falsy_def)
  have b: "''1970-01-01T03:02:00Z'' \<noteq> []" by simp
  have c: "exampleUnix ''1970-01-01T03:02:00Z'' = Some 10920"
    by (simp add: exampleUnix_def)
  have d: "fTypeOf exampleLateDeparture = Some ''departure'' \<or> fTypeOf exampleLateDeparture = Some ''dep''"
    by (simp add: exampleLateDeparture_def exampleFlight_def fTypeOf_def toLowerCase_departure_words)
  have n: "paxOrDefault exampleLateDeparture = 150"
    by (simp add: exampleLateDeparture_def exampleFlight_def paxOrDefault_def)
  have a': "anchorString exampleDeparture = Some ''1970-01-01T03:00:00Z''"
    by (simp add: exampleDeparture_def exampleFlight_def anchorString_def falsy_def)
  have b': "''1970-01-01T03:00:00Z'' \<noteq> []" by simp
  have c': "exampleUnix ''1970-01-01T03:00:00Z'' = Some 10800"
    by (simp add: exampleUnix_def)
  have d': "fTypeOf exampleDeparture = Some ''departure'' \<or> fTypeOf exampleDeparture = Some ''dep''"
    by (simp add: exampleDeparture_def exampleFlight_def fTypeOf_def toLowerCase_departure_words)
  have n': "paxOrDefault exampleDeparture = 60"
    by (simp add: exampleDeparture_def exampleFlight_def paxOrDefault_def)
  have r: "Math_round 150 = 150" "Math_round 60 = 60" by (simp_all add: Math_round_def)
  have s: "(10920 - 10800) - ((10920 - 10800) smod 3600) = (0::int)"
    "(10800 - 10800) - ((10800 - 10800) smod 3600) = (0::int)" by simp_all
  have e: "\<not> (300::int) dvd 10920 - 0" "(300::int) dvd 10800 - 0" by simp_all
  have late: "calculatePassengerDistribution exampleUnix exampleLateDeparture \<noteq> [] \<and>
      time (last (calculatePassengerDistribution exampleUnix exampleLateDeparture)) = 10920 \<and>
      passenger_count (last (calculatePassengerDistribution exampleUnix exampleLateDeparture)) = 150 \<and>
      calculatePassengerDistribution exampleUnix exampleLateDeparture =
        map (departurePoint exampleLateDeparture 150 0 10920) (fiveMinuteSteps 0 10920) @
          [finalDeparturePoint exampleLateDeparture 150 10920]"
    using departure_series_ends_with_full_count
      [where unix = exampleUnix and timeStr = "''1970-01-01T03:02:00Z''", OF a b c d] e(1)
    unfolding Let_def n s r by blast
  have onTime: "calculatePassengerDistribution exampleUnix exampleDeparture \<noteq> [] \<and>
      time (last (calculatePassengerDistribution exampleUnix exampleDeparture)) = 10800 \<and>
      passenger_count (last (calculatePassengerDistribution exampleUnix exampleDeparture)) = 60 \<and>
      calculatePassengerDistribution exampleUnix exampleDeparture =
        map (departurePoint exampleDeparture 60 0 10800) (fiveMinuteSteps 0 10800)"
    using departure_series_ends_with_full_count
      [where unix = exampleUnix and timeStr = "''1970-01-01T03:00:00Z''", OF a' b' c' d'] e(2)
    unfolding Let_def n' s r by blast
  show ?thesis using late onTime by (elim conjE) (intro conjI; assumption)
qed

text \<open>
  C8, amended. For every flight with \<open>N \<ge> 0\<close> (\<open>N\<close> being \<^verbatim>\<open>avg_pax_est || 100\<close>), every
  point of the series of \<^verbatim>\<open>calculatePassengerDistribution\<close> carries a count that is never
  negative and never exceeds \<open>Math.round(N)\<close>; in particular it never exceeds \<open>N\<close> when
  \<open>N\<close> is a whole number. (The curve values are taken in exact arithmetic.)
\<close>

theorem series_counts_within_rounded_N:
  assumes "0 \<le> paxOrDefault fl" and "p \<in> set (calculatePassengerDistribution unix fl)"
  shows "0 \<le> passenger_count p \<and> passenger_count p \<le> Math_round (paxOrDefault fl) \<and>
         (paxOrDefault fl \<in> \<int> \<longrightarrow> real_of_int (passenger_count p) \<le> paxOrDefault fl)"
proof -
  define N where "N = paxOrDefault fl"
  have N: "0 \<le> N" using assms(1) by (simp add: N_def)
  note ranges = arrivalPoint_count_range [OF N] departurePoint_count_range [OF N]
    finalDeparturePoint_count_range [OF N]
  have "0 \<le> passenger_count p \<and> passenger_count p \<le> Math_round N"
    using distribution_cases [of unix fl] assms(2) ranges
    unfolding N_def [symmetric] Let_def
    by (auto split: if_splits)
  moreover have "Math_round N = \<lfloor>N\<rfloor>" if "N \<in> \<int>"
    using that by (auto simp: Math_round_def elim!: Ints_cases)
  ultimately show ?thesis
    unfolding N_def [symmetric] by (auto simp: le_floor_iff)
qed

text \<open>C8, instance: the first point of an arrival with \<open>N = 50\<close>.\<close>

theorem series_counts_within_rounded_N_witness:
  "0 \<le> paxOrDefault exampleArrival \<and>
   hd (calculatePassengerDistribution exampleUnix exampleArrival) \<in>
     set (calculatePassengerDistribution exampleUnix exampleArrival) \<and>
   0 \<le> passenger_count (hd (calculatePassengerDistribution exampleUnix exampleArrival)) \<and>
   passenger_count (hd (calculatePassengerDistribution exampleUnix exampleArrival)) \<le> 50 \<and>
   real_of_int (passenger_count (hd (calculatePassengerDistribution exampleUnix exampleArrival)))
     \<le> paxOrDefault exampleArrival"
proof -
  have n: "paxOrDefault exampleArrival = 50"
    using example_arrival_series(4) [OF exampleArrival_def toLowerCase_examples(1)] by simp
  have h1: "0 \<le> paxOrDefault exampleArrival" by (simp add: n)
  have h2: "hd (calculatePassengerDistribution exampleUnix exampleArrival) \<in>
     set (calculatePassengerDistribution exampleUnix exampleArrival)"
    using example_arrival_series(2) [OF exampleArrival_def toLowerCase_examples(1)] by simp
  have r: "Math_round 50 = 50" by (simp add: Math_round_def)
  have z: "(50::real) \<in> \<int>" by simp
  show ?thesis
    using series_counts_within_rounded_N [OF h1 h2] h1 h2 z unfolding n r by simp
qed

text \<open>
  C8 as stated fails for a fractional estimate: for an arrival with \<open>N = 0.5\<close> landing on
  a 5-minute boundary, the first point carries \<open>Math.round(0.5) = 1\<close>, which exceeds \<open>N\<close>.
\<close>

theorem series_count_exceeds_fractional_N:
  "0 \<le> paxOrDefault exampleHalfPassenger \<and>
   hd (calculatePassengerDistribution exampleUnix exampleHalfPassenger) \<in>
     set (calculatePassengerDistribution exampleUnix exampleHalfPassenger) \<and>
   paxOrDefault exampleHalfPassenger <
     real_of_int (passenger_count (hd (calculatePassengerDistribution exampleUnix exampleHalfPassenger)))"
proof -
  have r: "Math_round (1 / 2) = 1" by (simp add: Math_round_def)
  show ?thesis
    using example_arrival_series(2,3,4) [OF exampleHalfPassenger_def toLowerCase_examples(2)]
    by (simp add: r)
qed

subsection \<open>The multi-flight grid\<close>

text \<open>
  C4. In every row of \<^verbatim>\<open>calculatePassengerGridData\<close> (rows exist only for a non-empty
  list of flights), each flight \<open>i\<close> has its own column \<^verbatim>\<open>flight_i\<close> holding a whole
  number, these are the only keys besides \<^verbatim>\<open>time\<close>, \<^verbatim>\<open>time_formatted\<close> and
  \<^verbatim>\<open>total\<close>, and \<^verbatim>\<open>total\<close> is the sum of the per-flight columns.
\<close>

theorem grid_total_is_sum_of_columns:
  assumes "row \<in> set (calculatePassengerGridData unix flights)"
  shows "\<exists>cols. length cols = length flights \<and>
           (\<forall>i < length flights. row (columnKeyOf i) = Some (Num (cols ! i))) \<and>
           row ''total'' = Some (Num (sum_list cols)) \<and>
           dom row = {''time'', ''time_formatted'', ''total''} \<union> columnKeyOf ` {0 ..< length flights}"
proof -
  obtain flightData t where fd: "those (flightDataOf unix flights) = Some flightData"
    and row: "row = gridRow flightData t"
    using grid_rows [OF assms] by blast
  define cols where "cols = map (\<lambda>fd. roundedPassengers fd t) flightData"
  have len: "length cols = length flights"
    using flightData_nth(1) [OF fd] by (simp add: cols_def)
  have "row (columnKeyOf i) = Some (Num (cols ! i))" if "i < length flights" for i
    using grid_row_columns(3) [OF fd that, of t] that flightData_nth(1) [OF fd]
    by (simp add: row cols_def)
  moreover have "row ''total'' = Some (Num (sum_list cols))"
    using grid_row_columns(1) [OF fd, of t] by (simp add: row cols_def)
  moreover have "dom row =
      {''time'', ''time_formatted'', ''total''} \<union> columnKeyOf ` {0 ..< length flights}"
    unfolding row by (rule grid_row_columns(4) [OF fd])
  ultimately show ?thesis using len by blast
qed

text \<open>
  C4, instance: an arrival (\<open>N = 50\<close>, landing at 00:00) and a departure (\<open>N = 60\<close>,
  leaving at 03:00); the row at 00:00 has the columns 50 and 0 and the total 50.
\<close>

theorem grid_total_is_sum_of_columns_witness:
  "calculatePassengerGridData exampleUnix [exampleArrival, exampleDeparture] ! 0 \<in>
     set (calculatePassengerGridData exampleUnix [exampleArrival, exampleDeparture]) \<and>
   (calculatePassengerGridData exampleUnix [exampleArrival, exampleDeparture] ! 0) ''flight_0'' =
     Some (Num 50) \<and>
   (calculatePassengerGridData exampleUnix [exampleArrival, exampleDeparture] ! 0) ''flight_1'' =
     Some (Num 0) \<and>
   (calculatePassengerGridData exampleUnix [exampleArrival, exampleDeparture] ! 0) ''total'' =
     Some (Num 50)"
proof -
  define row where "row = calculatePassengerGridData exampleUnix [exampleArrival, exampleDeparture] ! 0"
  have k: "300 * int 0 \<le> 18000" by simp
  have mem: "row \<in> set (calculatePassengerGridData exampleUnix [exampleArrival, exampleDeparture])"
    unfolding row_def by (rule example_pair_row(2) [OF k])
  have c0: "row ''flight_0'' = Some (Num 50)"
    unfolding row_def using example_pair_row(4) [OF k] by (simp add: example_cells)
  have c1: "row ''flight_1'' = Some (Num 0)"
    unfolding row_def using example_pair_row(5) [OF k] by (simp add: example_cells)
  obtain cols where len: "length cols = length [exampleArrival, exampleDeparture]"
    and cells: "\<forall>i < length [exampleArrival, exampleDeparture].
                  row (columnKeyOf i) = Some (Num (cols ! i))"
    and tot: "row ''total'' = Some (Num (sum_list cols))"
    using grid_total_is_sum_of_columns [OF mem] by (elim exE conjE) (rule that; assumption)
  from len obtain a b where cols: "cols = [a, b]"
    by (cases cols; cases "tl cols") auto
  have "row (columnKeyOf 0) = Some (Num a)"
    using cells cols by (metis length_Cons nth_Cons_0 zero_less_Suc)
  then have a: "a = 50" using c0 by (simp add: columnKeyOf_examples)
  have "row (columnKeyOf (Suc 0)) = Some (Num b)"
    using cells cols by (metis One_nat_def length_Cons lessI list.size(3) nth_Cons_0 nth_Cons_Suc
        one_add_one plus_1_eq_Suc)
  then have b: "b = 0" using c1 by (simp add: columnKeyOf_examples)
  show ?thesis
    using mem c0 c1 tot unfolding row_def [symmetric] cols a b by simp
qed

text \<open>
  C5, amended. For every selected flight \<open>i\<close> whose lowercased type is \<open>arrival\<close>/\<open>arr\<close> or
  \<open>departure\<close>/\<open>dep\<close> and which has an anchor time string, and for every row of the grid,
  with \<open>t\<close> the row's time and \<open>tAnchor\<close> the parsed anchor, the flight's cell is the
  corresponding model (arrival dissipation for an arrival, departure accumulation for a
  departure) evaluated directly at \<open>t\<close> and rounded to the nearest integer, with two
  exceptions: for an arrival an instant strictly before landing yields \<open>0\<close>, and for a
  departure an instant strictly after its departure time yields \<open>0\<close>.
\<close>

theorem grid_cell_is_direct_model:
  assumes "row \<in> set (calculatePassengerGridData unix flights)" and "i < length flights"
    and "anchorString (flights ! i) = Some timeStr" and "timeStr \<noteq> []"
    and "fTypeOf (flights ! i) = Some ''arrival'' \<or> fTypeOf (flights ! i) = Some ''arr'' \<or>
         fTypeOf (flights ! i) = Some ''departure'' \<or> fTypeOf (flights ! i) = Some ''dep''"
  shows "\<exists>t tAnchor. row ''time'' = Some (Num t) \<and> unix timeStr = Some tAnchor \<and>
           row (columnKeyOf i) =
             Some (Num (cellAsAmended
               (fTypeOf (flights ! i) = Some ''arrival'' \<or> fTypeOf (flights ! i) = Some ''arr'')
               tAnchor (paxOrDefault (flights ! i)) t))"
proof -
  obtain flightData t where fd: "those (flightDataOf unix flights) = Some flightData"
    and row: "row = gridRow flightData t"
    using grid_rows [OF assms(1)] by blast
  have d: "flightDatum unix (flights ! i) i = Some (flightData ! i)"
    using flightData_nth(2) [OF fd assms(2)] .
  have arr: "isArrival (flightData ! i) =
      (fTypeOf (flights ! i) = Some ''arrival'' \<or> fTypeOf (flights ! i) = Some ''arr'')"
    by (rule flightDatum_fields(3) [OF d])
  have anchor: "unix timeStr = Some (tActual (flightData ! i))"
    by (rule flightDatum_fields(7) [OF d assms(3,4)])
  have time: "row ''time'' = Some (Num t)"
    using grid_row_columns(2) [OF fd] by (simp add: row)
  have "row (columnKeyOf i) =
      Some (Num (cellAsAmended (isArrival (flightData ! i)) (tActual (flightData ! i))
        (paxOrDefault (flights ! i)) t))"
    using grid_row_columns(3) [OF fd assms(2), of t] flightDatum_fields(2) [OF d]
    by (simp add: row roundedPassengers_amended)
  then have cell: "row (columnKeyOf i) =
      Some (Num (cellAsAmended
        (fTypeOf (flights ! i) = Some ''arrival'' \<or> fTypeOf (flights ! i) = Some ''arr'')
        (tActual (flightData ! i)) (paxOrDefault (flights ! i)) t))"
    unfolding arr .
  show ?thesis
    using time anchor cell by (intro exI conjI)
qed

text \<open>
  C5, instance: the departure of the example pair (type \<open>departure\<close>, scheduled 03:00) in
  the row at 03:05, five minutes after it left.
\<close>

theorem grid_cell_is_direct_model_witness:
  "calculatePassengerGridData exampleUnix [exampleArrival, exampleDeparture] ! 37 \<in>
     set (calculatePassengerGridData exampleUnix [exampleArrival, exampleDeparture]) \<and>
   Suc 0 < length [exampleArrival, exampleDeparture] \<and>
   anchorString exampleDeparture = Some ''1970-01-01T03:00:00Z'' \<and>
   fTypeOf exampleDeparture = Some ''departure'' \<and>
   (calculatePassengerGridData exampleUnix [exampleArrival, exampleDeparture] ! 37) ''time'' =
     Some (Num 11100) \<and>
   (calculatePassengerGridData exampleUnix [exampleArrival, exampleDeparture] ! 37) ''flight_1'' =
     Some (Num (cellAsAmended False 10800 (paxOrDefault exampleDeparture) 11100)) \<and>
   cellAsAmended False 10800 (paxOrDefault exampleDeparture) 11100 = 0"
proof -
  define row where "row = calculatePassengerGridData exampleUnix [exampleArrival, exampleDeparture] ! 37"
  have k: "300 * int 37 \<le> 18000" by simp
  have mem: "row \<in> set (calculatePassengerGridData exampleUnix [exampleArrival, exampleDeparture])"
    unfolding row_def by (rule example_pair_row(2) [OF k])
  have i: "Suc 0 < length [exampleArrival, exampleDeparture]" by simp
  have time: "row ''time'' = Some (Num 11100)"
    unfolding row_def using example_pair_row(3) [OF k] by simp
  have n: "paxOrDefault exampleDeparture = 60"
    by (simp add: exampleDeparture_def exampleFlight_def paxOrDefault_def)
  have a: "anchorString exampleDeparture = Some ''1970-01-01T03:00:00Z''"
    by (simp add: exampleDeparture_def exampleFlight_def anchorString_def falsy_def)
  have ty: "fTypeOf exampleDeparture = Some ''departure''"
    by (simp add: exampleDeparture_def exampleFlight_def fTypeOf_def toLowerCase_examples)
  have h3: "anchorString ([exampleArrival, exampleDeparture] ! Suc 0) = Some ''1970-01-01T03:00:00Z''"
    using a by simp
  have h4: "''1970-01-01T03:00:00Z'' \<noteq> []" by simp
  have h5: "fTypeOf ([exampleArrival, exampleDeparture] ! Suc 0) = Some ''arrival'' \<or>
      fTypeOf ([exampleArrival, exampleDeparture] ! Suc 0) = Some ''arr'' \<or>
      fTypeOf ([exampleArrival, exampleDeparture] ! Suc 0) = Some ''departure'' \<or>
      fTypeOf ([exampleArrival, exampleDeparture] ! Suc 0) = Some ''dep''"
    using ty by simp
  obtain t tAnchor where "row ''time'' = Some (Num t)"
    and "exampleUnix ''1970-01-01T03:00:00Z'' = Some tAnchor"
    and "row (columnKeyOf (Suc 0)) =
      Some (Num (cellAsAmended
        (fTypeOf ([exampleArrival, exampleDeparture] ! Suc 0) = Some ''arrival'' \<or>
         fTypeOf ([exampleArrival, exampleDeparture] ! Suc 0) = Some ''arr'')
        tAnchor (paxOrDefault ([exampleArrival, exampleDeparture] ! Suc 0)) t))"
    using grid_cell_is_direct_model
      [where unix = exampleUnix and timeStr = "''1970-01-01T03:00:00Z''", OF mem i h3 h4 h5]
    by (elim exE conjE) (rule that; assumption)
  then have "row ''flight_1'' = Some (Num (cellAsAmended False 10800 (paxOrDefault exampleDeparture) 11100))"
    using time ty by (simp add: columnKeyOf_examples exampleUnix_def)
  then show ?thesis
    using mem i a ty time unfolding row_def [symmetric] n by (simp add: example_cells)
qed

text \<open>
  C5 as stated, with the arrival exception only, fails: in the row at 03:05 the cell of the
  departure that left at 03:00 with \<open>N = 60\<close> is \<open>0\<close>, while the departure model evaluated
  at that instant and rounded is \<open>60\<close>.
\<close>

theorem grid_departure_cell_after_departure:
  "37 < length (calculatePassengerGridData exampleUnix [exampleArrival, exampleDeparture]) \<and>
   (calculatePassengerGridData exampleUnix [exampleArrival, exampleDeparture] ! 37) ''time'' =
     Some (Num 11100) \<and>
   (calculatePassengerGridData exampleUnix [exampleArrival, exampleDeparture] ! 37) ''flight_1'' =
     Some (Num 0) \<and>
   fTypeOf exampleDeparture = Some ''departure'' \<and>
   paxOrDefault exampleDeparture = 60 \<and>
   cellAsClaimed False 10800 60 11100 = 60 \<and>
   (calculatePassengerGridData exampleUnix [exampleArrival, exampleDeparture] ! 37) ''flight_1'' \<noteq>
     Some (Num (cellAsClaimed False 10800 (paxOrDefault exampleDeparture) 11100))"
proof -
  have k: "300 * int 37 \<le> 18000" by simp
  have "fTypeOf exampleDeparture = Some ''departure''"
    by (simp add: exampleDeparture_def exampleFlight_def fTypeOf_def toLowerCase_examples)
  moreover have "paxOrDefault exampleDeparture = 60"
    by (simp add: exampleDeparture_def exampleFlight_def paxOrDefault_def)
  ultimately show ?thesis
    using example_pair_row(1,3,5) [OF k] by (simp add: example_cells)
qed

text \<open>
  C6. The series generator yields no points for a flight of type \<open>cargo\<close> and for a flight
  whose two time strings are empty. The grid does not drop them: it treats the first as a departure
  at its scheduled time and the second as a departure at epoch second \<open>0\<close>, and the row at
  that instant carries the full default count \<open>100\<close> in the flight's column and in the
  total.
\<close>

theorem grid_keeps_flights_the_series_drops:
  "fTypeOf exampleCargo = Some ''cargo'' \<and>
   calculatePassengerDistribution exampleUnix exampleCargo = [] \<and>
   36 < length (calculatePassengerGridData exampleUnix [exampleCargo]) \<and>
   (calculatePassengerGridData exampleUnix [exampleCargo] ! 36) ''time'' = Some (Num 10800) \<and>
   (calculatePassengerGridData exampleUnix [exampleCargo] ! 36) ''flight_0'' = Some (Num 100) \<and>
   (calculatePassengerGridData exampleUnix [exampleCargo] ! 36) ''total'' = Some (Num 100) \<and>
   actual_time_utc exampleUnanchored = Some [] \<and> scheduled_time_utc exampleUnanchored = Some [] \<and>
   calculatePassengerDistribution exampleUnix exampleUnanchored = [] \<and>
   36 < length (calculatePassengerGridData exampleUnix [exampleUnanchored]) \<and>
   (calculatePassengerGridData exampleUnix [exampleUnanchored] ! 36) ''time'' = Some (Num 0) \<and>
   (calculatePassengerGridData exampleUnix [exampleUnanchored] ! 36) ''flight_0'' = Some (Num 100) \<and>
   (calculatePassengerGridData exampleUnix [exampleUnanchored] ! 36) ''total'' = Some (Num 100)"
proof -
  have t: "fTypeOf exampleCargo = Some ''cargo''"
    by (simp add: exampleCargo_def exampleFlight_def fTypeOf_def toLowerCase_examples)
  then have c1: "calculatePassengerDistribution exampleUnix exampleCargo = []"
    by (intro distribution_unrecognised_type) simp_all
  have u: "actual_time_utc exampleUnanchored = Some []" "scheduled_time_utc exampleUnanchored = Some []"
    by (simp_all add: exampleUnanchored_def exampleFlight_def)
  then have c2: "calculatePassengerDistribution exampleUnix exampleUnanchored = []"
    by (intro distribution_without_anchor) (simp_all add: falsy_def)
  have r: "roundedPassengers \<lparr>flight = exampleCargo, index = 0, columnKey = ''flight_0'', tActual = 10800,
             isArrival = False, fd_N = 100, windowStart = 0, windowEnd = 10800\<rparr> 10800 = 100"
    "roundedPassengers \<lparr>flight = exampleUnanchored, index = 0, columnKey = ''flight_0'', tActual = 0,
             isArrival = False, fd_N = 100, windowStart = - 10800, windowEnd = 0\<rparr> 0 = 100"
    by (simp_all add: roundedPassengers_def passengersLogNormal_def Math_round_def)
  have g1: "36 < length (calculatePassengerGridData exampleUnix [exampleCargo])"
    "(calculatePassengerGridData exampleUnix [exampleCargo] ! 36) ''time'' = Some (Num 10800)"
    "(calculatePassengerGridData exampleUnix [exampleCargo] ! 36) ''flight_0'' = Some (Num 100)"
    "(calculatePassengerGridData exampleUnix [exampleCargo] ! 36) ''total'' = Some (Num 100)"
    using example_single_row [OF exampleCargo_flightData, of 0 36] r(1) by simp_all
  have g2: "36 < length (calculatePassengerGridData exampleUnix [exampleUnanchored])"
    "(calculatePassengerGridData exampleUnix [exampleUnanchored] ! 36) ''time'' = Some (Num 0)"
    "(calculatePassengerGridData exampleUnix [exampleUnanchored] ! 36) ''flight_0'' = Some (Num 100)"
    "(calculatePassengerGridData exampleUnix [exampleUnanchored] ! 36) ''total'' = Some (Num 100)"
    using example_single_row [OF exampleUnanchored_flightData, of "- 10800" 36] r(2) by simp_all
  show ?thesis
    using t c1 c2 u g1 g2 by simp
qed

subsection \<open>The default passenger count\<close>



end
